theory Spec2Isabelle
  imports Complex_Main
begin

section \<open>The projected Gauss-Seidel impulse solver (PGSImpulseSolver.cpp)\<close>

text \<open>
  The source computes with \<^verbatim>\<open>Real\<close> (a double).  The embedding computes with the
  exact reals: \<^verbatim>\<open>square\<close> is \<open>x * x\<close>, \<^verbatim>\<open>std::sqrt\<close> is \<open>sqrt\<close>, and the two
  non-finite values the solver starts from (\<^verbatim>\<open>Infinity\<close>, \<^verbatim>\<open>NaN\<close>) are written out
  where they are read.  A \<^verbatim>\<open>Vector\<close> is a list of reals, a \<^verbatim>\<open>Matrix\<close> a list of
  rows, a \<^verbatim>\<open>MultiplierIndex\<close> a natural number, an \<^verbatim>\<open>Array_\<close> a list.  The source
  checks index ranges in debug builds only; the theorems that read an entry state
  the range they need.  The theorems state what the code tests and which
  expressions it stores; what would follow from exact arithmetic alone (that a
  scaled vector has exactly the length of its cap, say) is not stated, since the
  rounded products of the source need not have it.
\<close>

type_synonym Real = real
type_synonym Vector = "real list"
type_synonym Matrix = "real list list"
type_synonym MultiplierIndex = nat

definition square :: "Real \<Rightarrow> Real" where
  "square x = x * x"

text \<open>\<^verbatim>\<open>A(row,col)\<close>\<close>

definition elt :: "Matrix \<Rightarrow> nat \<Rightarrow> nat \<Rightarrow> Real" where
  "elt A row col = A ! row ! col"

subsection \<open>Local utilities\<close>

text \<open>\<^verbatim>\<open>doRowSum\<close>: \<open>A[row]*pi\<close>, looking at the given columns only, summed in
  the order of the columns.\<close>

definition doRowSum :: "MultiplierIndex list \<Rightarrow> MultiplierIndex \<Rightarrow> Matrix \<Rightarrow> Vector \<Rightarrow> Real" where
  "doRowSum columns row A piv =
     foldl (\<lambda>rowSum cx. rowSum + elt A row cx * piv ! cx) 0 columns"

text \<open>\<^verbatim>\<open>doRowSums\<close>: the sums are resized to the rows and zeroed; the outer loop
  runs over the columns, the inner one over the rows.\<close>

definition doRowSums :: "MultiplierIndex list \<Rightarrow> MultiplierIndex list \<Rightarrow> Matrix \<Rightarrow> Vector \<Rightarrow> Real list" where
  "doRowSums columns rows A piv =
     foldl (\<lambda>acc cx.
              foldl (\<lambda>acc' i. acc'[i := acc' ! i + elt A (rows ! i) cx * piv ! cx])
                    acc [0..<length rows])
           (replicate (length rows) 0) columns"

text \<open>\<^verbatim>\<open>doUpdate\<close>: the returned pair is the squared error and the vector after
  the update.\<close>

definition doUpdate :: "MultiplierIndex \<Rightarrow> Matrix \<Rightarrow> Vector \<Rightarrow> Real \<Rightarrow> Real \<Rightarrow> Vector \<Rightarrow> Real \<times> Vector" where
  "doUpdate row A rhs SOR rowSum piv =
     (let Arr = elt A row row;
          er = rhs ! row - rowSum
      in (square er,
          if Arr > 0 then piv[row := piv ! row + SOR * er / Arr] else piv))"

text \<open>\<^verbatim>\<open>doUpdates\<close>: the same for several rows, returning the sum of the squared
  errors.\<close>

definition doUpdates :: "MultiplierIndex list \<Rightarrow> Matrix \<Rightarrow> Vector \<Rightarrow> Real \<Rightarrow> Real list \<Rightarrow> Vector \<Rightarrow> Real \<times> Vector" where
  "doUpdates rows A rhs SOR rowSums piv =
     foldl (\<lambda>(er2, piv') i.
              let row = rows ! i;
                  Arr = elt A row row;
                  er = rhs ! row - rowSums ! i
              in (er2 + square er,
                  if Arr > 0 then piv'[row := piv' ! row + SOR * er / Arr] else piv'))
           (0, piv) [0..<length rows]"

subsection \<open>Status values\<close>

text \<open>
  The enumerations are declared in \<^verbatim>\<open>ImpulseSolver.h\<close>; the solver names these
  values of them and no others.
\<close>

datatype ContactType = Observe | Known | Participate
datatype UniCond = UniOff | UniActive
datatype BndCond = SlipLow | Engaged | SlipHigh
datatype FricCond = Sliding | Rolling

subsection \<open>Projection operators\<close>

text \<open>Each operator returns its status together with the value it leaves in the
  multiplier (the source writes it through a reference).\<close>

definition boundUnilateral :: "Real \<Rightarrow> Real \<Rightarrow> UniCond \<times> Real" where
  "boundUnilateral sign p = (if sign * p > 0 then (UniOff, 0) else (UniActive, p))"

definition boundScalar :: "Real \<Rightarrow> Real \<Rightarrow> Real \<Rightarrow> BndCond \<times> Real" where
  "boundScalar lb p ub =
     (if p > ub then (SlipHigh, ub)
      else if p < lb then (SlipLow, lb)
      else (Engaged, p))"

text \<open>The loop \<^verbatim>\<open>for (i...) n2 += square(pi[IV[i]])\<close>.\<close>

definition sumSquares :: "MultiplierIndex list \<Rightarrow> Vector \<Rightarrow> Real" where
  "sumSquares IV piv = foldl (\<lambda>n2 i. n2 + square (piv ! i)) 0 IV"

text \<open>The loop \<^verbatim>\<open>for (i...) pi[IV[i]] *= scale\<close>.\<close>

definition scaleEntries :: "Real \<Rightarrow> MultiplierIndex list \<Rightarrow> Vector \<Rightarrow> Vector" where
  "scaleEntries scale IV piv = foldl (\<lambda>p i. p[i := p ! i * scale]) piv IV"

definition boundVector :: "Real \<Rightarrow> MultiplierIndex list \<Rightarrow> Vector \<Rightarrow> FricCond \<times> Vector" where
  "boundVector maxLen IV piv =
     (let maxLen2 = square maxLen;
          piNorm2 = sumSquares IV piv
      in if piNorm2 \<le> maxLen2 then (Rolling, piv)
         else let scale = sqrt (maxLen2 / piNorm2)
              in (Sliding, scaleEntries scale IV piv))"

definition boundFriction :: "Real \<Rightarrow> MultiplierIndex list \<Rightarrow> MultiplierIndex list \<Rightarrow> Vector \<Rightarrow> FricCond \<times> Vector" where
  "boundFriction mu IN IF piv =
     (let N2 = sumSquares IN piv;
          F2 = sumSquares IF piv;
          mu2N2 = mu * mu * N2
      in if F2 \<le> mu2N2 then (Rolling, piv)
         else let scale = sqrt (mu2N2 / F2)
              in (Sliding, scaleEntries scale IF piv))"

subsection \<open>Runtime records\<close>

text \<open>
  The records are declared in \<^verbatim>\<open>ImpulseSolver.h\<close>; each is modelled with the
  fields \<^verbatim>\<open>solve\<close> reads or writes, under the names \<^verbatim>\<open>solve\<close> uses.  Fields of
  the same name in different records carry the record's initials.
\<close>

record UncondRT =
  m_mults :: "MultiplierIndex list"

record UniContactRT =
  m_sign :: Real
  m_type :: ContactType
  m_effMu :: Real
  m_Nk :: MultiplierIndex
  m_Fk :: "MultiplierIndex list"
  m_knownPi :: Real
  m_contactCond :: UniCond
  m_frictionCond :: FricCond

text \<open>Modelled from the spec: \<^verbatim>\<open>UniSpeedRT\<close> is declared in \<^verbatim>\<open>ImpulseSolver.h\<close> and
  \<^verbatim>\<open>solve\<close> names none of its fields; the specification gives it a single index,
  a one-sided condition and a runtime status.\<close>

record UniSpeedRT =
  m_ix_US :: MultiplierIndex
  m_sign_US :: Real
  m_speedCond :: UniCond

record BoundedRT =
  m_ix :: MultiplierIndex
  m_lb :: Real
  m_ub :: Real
  m_boundedCond :: BndCond

record StateLtdFrictionRT =
  m_Fk_SL :: "MultiplierIndex list"
  m_knownN :: Real
  m_effMu_SL :: Real
  m_frictionCond_SL :: FricCond

record ConstraintLtdFrictionRT =
  m_Fk_CL :: "MultiplierIndex list"
  m_Nk_CL :: "MultiplierIndex list"
  m_effMu_CL :: Real
  m_frictionCond_CL :: FricCond

text \<open>Modelled from the spec: \<^verbatim>\<open>UniContactRT::hasFriction\<close> is defined in
  \<^verbatim>\<open>ImpulseSolver.h\<close>; a contact has friction when it carries friction multiplier
  indices ("optionally a pair of friction-multiplier indices").\<close>

definition hasFriction :: "UniContactRT \<Rightarrow> bool" where
  "hasFriction rt = (m_Fk rt \<noteq> [])"

text \<open>The solver object: its configuration and its per-phase counters (mutable
  members, indexed by the phase).\<close>

record PGSImpulseSolver =
  m_maxIters :: int
  m_convergenceTol :: Real
  m_SOR :: Real
  m_nSolves :: "int \<Rightarrow> int"
  m_nIters :: "int \<Rightarrow> int"
  m_nFail :: "int \<Rightarrow> int"

subsection \<open>One sweep\<close>

text \<open>What one sweep threads through its six loops: the multipliers and the two
  error sums.\<close>

record Sweep =
  s_pi :: Vector
  sum2all :: Real
  sum2enf :: Real

text \<open>\<^verbatim>\<open>for (k...) { RT& rt = array[k]; ... }\<close>: the body may write to the record
  and to the state threaded through.\<close>

fun forEach :: "('r \<Rightarrow> 'a \<Rightarrow> 'r \<times> 'a) \<Rightarrow> 'r list \<Rightarrow> 'a \<Rightarrow> 'r list \<times> 'a" where
  "forEach body [] a = ([], a)"
| "forEach body (rt # rts) a =
     (let (rt', a') = body rt a;
          (rts', a'') = forEach body rts a'
      in (rt' # rts', a''))"

definition uncondStep :: "MultiplierIndex list \<Rightarrow> Matrix \<Rightarrow> Vector \<Rightarrow> Real \<Rightarrow> UncondRT \<Rightarrow> Sweep \<Rightarrow> UncondRT \<times> Sweep" where
  "uncondStep participating A rhs sor rt s =
     (let rowSums = doRowSums participating (m_mults rt) A (s_pi s);
          (localEr2, piv) = doUpdates (m_mults rt) A rhs sor rowSums (s_pi s)
      in (rt, \<lparr>s_pi = piv, sum2all = sum2all s + localEr2, sum2enf = sum2enf s + localEr2\<rparr>))"

definition normalStep :: "MultiplierIndex list \<Rightarrow> Matrix \<Rightarrow> Vector \<Rightarrow> Real \<Rightarrow> UniContactRT \<Rightarrow> Sweep \<Rightarrow> UniContactRT \<times> Sweep" where
  "normalStep participating A rhs sor rt s =
     (if m_type rt \<noteq> Participate then (rt, s)
      else
        let Nk = m_Nk rt;
            rowSum = doRowSum participating Nk A (s_pi s);
            (er2, piv) = doUpdate Nk A rhs sor rowSum (s_pi s);
            (cond, v) = boundUnilateral (m_sign rt) (piv ! Nk)
        in (rt\<lparr>m_contactCond := cond\<rparr>,
            \<lparr>s_pi = piv[Nk := v], sum2all = sum2all s + er2,
             sum2enf = (if cond = UniActive then sum2enf s + er2 else sum2enf s)\<rparr>))"

definition frictionStep :: "MultiplierIndex list \<Rightarrow> Matrix \<Rightarrow> Vector \<Rightarrow> Real \<Rightarrow> UniContactRT \<Rightarrow> Sweep \<Rightarrow> UniContactRT \<times> Sweep" where
  "frictionStep participating A rhs sor rt s =
     (if m_type rt = Observe \<or> \<not> hasFriction rt then (rt, s)
      else
        let Nk = m_Nk rt;
            Fk = m_Fk rt;
            rowSums = doRowSums participating Fk A (s_pi s);
            (er2, piv) = doUpdates Fk A rhs sor rowSums (s_pi s);
            N = \<bar>if m_type rt = Known then m_knownPi rt else piv ! Nk\<bar>;
            (cond, piv') = boundVector (m_effMu rt * N) Fk piv
        in (rt\<lparr>m_frictionCond := cond\<rparr>,
            \<lparr>s_pi = piv', sum2all = sum2all s + er2,
             sum2enf = (if cond = Rolling then sum2enf s + er2 else sum2enf s)\<rparr>))"

definition boundedStep :: "MultiplierIndex list \<Rightarrow> Matrix \<Rightarrow> Vector \<Rightarrow> Real \<Rightarrow> BoundedRT \<Rightarrow> Sweep \<Rightarrow> BoundedRT \<times> Sweep" where
  "boundedStep participating A rhs sor rt s =
     (let rx = m_ix rt;
          rowSum = doRowSum participating rx A (s_pi s);
          (er2, piv) = doUpdate rx A rhs sor rowSum (s_pi s);
          (cond, v) = boundScalar (m_lb rt) (piv ! rx) (m_ub rt)
      in (rt\<lparr>m_boundedCond := cond\<rparr>,
          \<lparr>s_pi = piv[rx := v], sum2all = sum2all s + er2,
           sum2enf = (if cond = Engaged then sum2enf s + er2 else sum2enf s)\<rparr>))"

definition stateLtdStep :: "MultiplierIndex list \<Rightarrow> Matrix \<Rightarrow> Vector \<Rightarrow> Real \<Rightarrow> StateLtdFrictionRT \<Rightarrow> Sweep \<Rightarrow> StateLtdFrictionRT \<times> Sweep" where
  "stateLtdStep participating A rhs sor rt s =
     (let Fk = m_Fk_SL rt;
          rowSums = doRowSums participating Fk A (s_pi s);
          (localEr2, piv) = doUpdates Fk A rhs sor rowSums (s_pi s);
          (cond, piv') = boundVector (m_effMu_SL rt * m_knownN rt) Fk piv
      in (rt\<lparr>m_frictionCond_SL := cond\<rparr>,
          \<lparr>s_pi = piv', sum2all = sum2all s + localEr2,
           sum2enf = (if cond = Rolling then sum2enf s + localEr2 else sum2enf s)\<rparr>))"

definition consLtdStep :: "MultiplierIndex list \<Rightarrow> Matrix \<Rightarrow> Vector \<Rightarrow> Real \<Rightarrow> ConstraintLtdFrictionRT \<Rightarrow> Sweep \<Rightarrow> ConstraintLtdFrictionRT \<times> Sweep" where
  "consLtdStep participating A rhs sor rt s =
     (let Fk = m_Fk_CL rt;
          Nk = m_Nk_CL rt;
          rowSums = doRowSums participating Fk A (s_pi s);
          (localEr2, piv) = doUpdates Fk A rhs sor rowSums (s_pi s);
          (cond, piv') = boundFriction (m_effMu_CL rt) Nk Fk piv
      in (rt\<lparr>m_frictionCond_CL := cond\<rparr>,
          \<lparr>s_pi = piv', sum2all = sum2all s + localEr2,
           sum2enf = (if cond = Rolling then sum2enf s + localEr2 else sum2enf s)\<rparr>))"

text \<open>The multiplier vector and the six arrays of runtime records that \<^verbatim>\<open>solve\<close>
  receives by reference.\<close>

record Data =
  d_pi :: Vector
  unconditional :: "UncondRT list"
  uniContact :: "UniContactRT list"
  uniSpeed :: "UniSpeedRT list"
  boundedCons :: "BoundedRT list"
  consLtdFriction :: "ConstraintLtdFrictionRT list"
  stateLtdFriction :: "StateLtdFrictionRT list"

text \<open>The six loops of one sweep, in the order of the source, starting from error
  sums of zero.  The result is the data after the sweep with the two sums.  There
  is no loop over \<open>uniSpeed\<close> in the source.\<close>

definition sweep :: "MultiplierIndex list \<Rightarrow> Matrix \<Rightarrow> Vector \<Rightarrow> Real \<Rightarrow> Data \<Rightarrow> Data \<times> Real \<times> Real" where
  "sweep participating A rhs sor d =
     (let s0 = \<lparr>s_pi = d_pi d, sum2all = 0, sum2enf = 0\<rparr>;
          (un, s1) = forEach (uncondStep participating A rhs sor) (unconditional d) s0;
          (uc1, s2) = forEach (normalStep participating A rhs sor) (uniContact d) s1;
          (uc2, s3) = forEach (frictionStep participating A rhs sor) uc1 s2;
          (bd, s4) = forEach (boundedStep participating A rhs sor) (boundedCons d) s3;
          (sl, s5) = forEach (stateLtdStep participating A rhs sor) (stateLtdFriction d) s4;
          (cl, s6) = forEach (consLtdStep participating A rhs sor) (consLtdFriction d) s5
      in (d\<lparr>d_pi := s_pi s6, unconditional := un, uniContact := uc2, boundedCons := bd,
             consLtdFriction := cl, stateLtdFriction := sl\<rparr>,
          sum2all s6, sum2enf s6))"

subsection \<open>The iteration\<close>

text \<open>A \<^verbatim>\<open>Real\<close> that may hold one of the two non-finite values the solver
  initialises its norms with.\<close>

datatype XReal = Fin Real | Infinity | NaN

text \<open>\<^verbatim>\<open>rate > 1\<close> for \<^verbatim>\<open>rate = normRMSenf/prevNormRMSenf\<close>, the numerator being the
  finite, non-negative norm just computed: a finite number over \<^verbatim>\<open>Infinity\<close> is 0,
  a positive number over 0 is \<^verbatim>\<open>Infinity\<close>, and 0 over 0 and anything over
  \<^verbatim>\<open>NaN\<close> is \<^verbatim>\<open>NaN\<close>, which compares false.\<close>

definition rateAboveOne :: "Real \<Rightarrow> XReal \<Rightarrow> bool" where
  "rateAboveOne cur prev =
     (case prev of
        Fin q \<Rightarrow> (if q = 0 then cur > 0 else cur / q > 1)
      | Infinity \<Rightarrow> False
      | NaN \<Rightarrow> False)"

text \<open>The state of the loop in \<^verbatim>\<open>solve\<close>: the solver object (for its counters),
  the data, and the local variables.\<close>

record Run =
  solver :: PGSImpulseSolver
  data :: Data
  converged :: bool
  normRMSall :: XReal
  normRMSenf :: XReal
  sor :: Real
  prevNormRMSenf :: XReal
  its :: int
  decreasing :: bool
  increasing :: bool

text \<open>The body of the loop, up to and including the convergence test.\<close>

definition iteration :: "int \<Rightarrow> MultiplierIndex list \<Rightarrow> Matrix \<Rightarrow> Vector \<Rightarrow> Run \<Rightarrow> Run" where
  "iteration phase participating A rhs r =
     (let S = solver r;
          p = int (length participating);
          prev = normRMSenf r;
          (d, sum2all', sum2enf') = sweep participating A rhs (sor r) (data r);
          rmsAll = sqrt (sum2all' / real_of_int p);
          rmsEnf = sqrt (sum2enf' / real_of_int p);
          worse = (\<not> increasing r \<and> rateAboveOne rmsEnf prev)
      in r\<lparr>solver := S\<lparr>m_nIters := (m_nIters S)(phase := m_nIters S phase + 1)\<rparr>,
            data := d,
            prevNormRMSenf := prev,
            normRMSall := Fin rmsAll,
            normRMSenf := Fin rmsEnf,
            sor := (if worse \<and> sor r > 1 / 10 then max (8 / 10 * sor r) (1 / 10) else sor r),
            decreasing := (decreasing r \<or> worse),
            converged := (rmsEnf < m_convergenceTol S)\<rparr>)"

text \<open>\<^verbatim>\<open>for (; its <= m_maxIters; ++its) { ...; if (...) {converged = true; break;} }\<close>\<close>

function pgsLoop :: "int \<Rightarrow> MultiplierIndex list \<Rightarrow> Matrix \<Rightarrow> Vector \<Rightarrow> Run \<Rightarrow> Run" where
  "pgsLoop phase participating A rhs r =
     (if its r \<le> m_maxIters (solver r) then
        let r' = iteration phase participating A rhs r
        in if converged r' then r'
           else pgsLoop phase participating A rhs (r'\<lparr>its := its r' + 1\<rparr>)
      else r)"
  by pat_completeness auto
termination
  by (relation "measure (\<lambda>(phase, participating, A, rhs, r). nat (m_maxIters (solver r) + 1 - its r))")
     (auto simp: iteration_def Let_def split_beta)

declare pgsLoop.simps [simp del]

text \<open>The loop from the top of one pass to the top of the next, when the pass does
  not break; and the state at the convergence test of pass \<open>k + 1\<close> when the
  \<open>k\<close> passes before it did not break.\<close>

definition nextPass :: "int \<Rightarrow> MultiplierIndex list \<Rightarrow> Matrix \<Rightarrow> Vector \<Rightarrow> Run \<Rightarrow> Run" where
  "nextPass phase participating A rhs r =
     (let r' = iteration phase participating A rhs r in r'\<lparr>its := its r' + 1\<rparr>)"

definition atTest :: "int \<Rightarrow> MultiplierIndex list \<Rightarrow> Matrix \<Rightarrow> Vector \<Rightarrow> nat \<Rightarrow> Run \<Rightarrow> Run" where
  "atTest phase participating A rhs k r =
     iteration phase participating A rhs ((nextPass phase participating A rhs ^^ k) r)"

text \<open>The local variables as \<^verbatim>\<open>solve\<close> initialises them before the loop.\<close>

definition initialRun :: "PGSImpulseSolver \<Rightarrow> Data \<Rightarrow> Run" where
  "initialRun S d =
     \<lparr>solver = S, data = d, converged = False,
      normRMSall = Infinity, normRMSenf = Infinity, sor = m_SOR S,
      prevNormRMSenf = NaN, its = 1,
      decreasing = False, increasing = False\<rparr>"

text \<open>The state in which \<^verbatim>\<open>solve\<close> enters its loop: the solve has been counted.\<close>

definition solveStart :: "PGSImpulseSolver \<Rightarrow> int \<Rightarrow> Data \<Rightarrow> Run" where
  "solveStart S phase d =
     initialRun (S\<lparr>m_nSolves := (m_nSolves S)(phase := m_nSolves S phase + 1)\<rparr>) d"

text \<open>\<^verbatim>\<open>PGSImpulseSolver::solve\<close>, as compiled without the debugging assertions.  The
  result is the value returned, the solver object with its counters, and the
  data.\<close>

definition solve :: "PGSImpulseSolver \<Rightarrow> int \<Rightarrow> MultiplierIndex list \<Rightarrow> Matrix \<Rightarrow> Vector \<Rightarrow> Vector \<Rightarrow> Data \<Rightarrow> bool \<times> PGSImpulseSolver \<times> Data" where
  "solve S phase participating A D rhs d =
     (let S' = S\<lparr>m_nSolves := (m_nSolves S)(phase := m_nSolves S phase + 1)\<rparr>;
          p = int (length participating)
      in if p = 0 then (True, S', d)
         else
           let r = pgsLoop phase participating A rhs (initialRun S' d);
               S'' = solver r
           in (converged r,
               if \<not> converged r
               then S''\<lparr>m_nFail := (m_nFail S'')(phase := m_nFail S'' phase + 1)\<rparr>
               else S'',
               data r))"

subsection \<open>The stages of a sweep\<close>

text \<open>
  To say what a sweep does record by record, the following name the state of
  the sweep (the multipliers and the two error sums) at the moment one of its
  six loops reaches its record number \<open>k\<close>: the loops before it have run over
  all their records, and the loop itself over its first \<open>k\<close> records.  Each loop
  starts from the state in which the loop before it ended, the first from the
  multipliers passed in and error sums of zero.
\<close>

definition sweepStart :: "Data \<Rightarrow> Sweep" where
  "sweepStart d = \<lparr>s_pi = d_pi d, sum2all = 0, sum2enf = 0\<rparr>"

definition uncondAt :: "MultiplierIndex list \<Rightarrow> Matrix \<Rightarrow> Vector \<Rightarrow> Real \<Rightarrow> Data \<Rightarrow> nat \<Rightarrow> Sweep" where
  "uncondAt participating A rhs w d k =
     snd (forEach (uncondStep participating A rhs w) (take k (unconditional d)) (sweepStart d))"

definition normalsAt :: "MultiplierIndex list \<Rightarrow> Matrix \<Rightarrow> Vector \<Rightarrow> Real \<Rightarrow> Data \<Rightarrow> nat \<Rightarrow> Sweep" where
  "normalsAt participating A rhs w d k =
     snd (forEach (normalStep participating A rhs w) (take k (uniContact d))
            (uncondAt participating A rhs w d (length (unconditional d))))"

text \<open>The contact records as the loop over the normals leaves them.\<close>

definition contactsAfterNormals :: "MultiplierIndex list \<Rightarrow> Matrix \<Rightarrow> Vector \<Rightarrow> Real \<Rightarrow> Data \<Rightarrow> UniContactRT list" where
  "contactsAfterNormals participating A rhs w d =
     fst (forEach (normalStep participating A rhs w) (uniContact d)
            (uncondAt participating A rhs w d (length (unconditional d))))"

definition frictionAt :: "MultiplierIndex list \<Rightarrow> Matrix \<Rightarrow> Vector \<Rightarrow> Real \<Rightarrow> Data \<Rightarrow> nat \<Rightarrow> Sweep" where
  "frictionAt participating A rhs w d k =
     snd (forEach (frictionStep participating A rhs w)
            (take k (contactsAfterNormals participating A rhs w d))
            (normalsAt participating A rhs w d (length (uniContact d))))"

definition boundedAt :: "MultiplierIndex list \<Rightarrow> Matrix \<Rightarrow> Vector \<Rightarrow> Real \<Rightarrow> Data \<Rightarrow> nat \<Rightarrow> Sweep" where
  "boundedAt participating A rhs w d k =
     snd (forEach (boundedStep participating A rhs w) (take k (boundedCons d))
            (frictionAt participating A rhs w d (length (uniContact d))))"

definition stateLtdAt :: "MultiplierIndex list \<Rightarrow> Matrix \<Rightarrow> Vector \<Rightarrow> Real \<Rightarrow> Data \<Rightarrow> nat \<Rightarrow> Sweep" where
  "stateLtdAt participating A rhs w d k =
     snd (forEach (stateLtdStep participating A rhs w) (take k (stateLtdFriction d))
            (boundedAt participating A rhs w d (length (boundedCons d))))"

definition consLtdAt :: "MultiplierIndex list \<Rightarrow> Matrix \<Rightarrow> Vector \<Rightarrow> Real \<Rightarrow> Data \<Rightarrow> nat \<Rightarrow> Sweep" where
  "consLtdAt participating A rhs w d k =
     snd (forEach (consLtdStep participating A rhs w) (take k (consLtdFriction d))
            (stateLtdAt participating A rhs w d (length (stateLtdFriction d))))"

text \<open>The relation between the two error sums that every loop of a sweep
  keeps.\<close>

definition sumsOrdered :: "Sweep \<Rightarrow> bool" where
  "sumsOrdered s = (0 \<le> sum2enf s \<and> sum2enf s \<le> sum2all s)"

section \<open>Properties\<close>

subsection \<open>The scalar update primitive\<close>

text \<open>
  Claim C1.  For every row \<open>r\<close> inside the vector, every matrix, right-hand side,
  relaxation factor \<open>w\<close> and accumulated row sum \<open>s\<close>, \<open>doUpdate\<close> sets \<open>pi[r]\<close> to
  \<open>pi[r] + w * (rhs[r] - s) / A[r,r]\<close> when \<open>A[r,r] > 0\<close> and leaves it as it
  is when \<open>A[r,r] \<le> 0\<close>; in both cases it returns the squared residual
  \<open>(rhs[r] - s)\<^sup>2\<close>, the length of \<open>pi\<close> is kept and no entry other than \<open>pi[r]\<close>
  is modified.  \<open>doUpdates\<close> on the single row \<open>r\<close> does the same.
\<close>

theorem doUpdate_contract:
  assumes "r < length piv"
  shows "fst (doUpdate r A rhs w s piv) = (rhs ! r - s)\<^sup>2
       \<and> snd (doUpdate r A rhs w s piv) ! r =
           (if elt A r r > 0 then piv ! r + w * (rhs ! r - s) / elt A r r else piv ! r)
       \<and> length (snd (doUpdate r A rhs w s piv)) = length piv
       \<and> (\<forall>j. j \<noteq> r \<longrightarrow> snd (doUpdate r A rhs w s piv) ! j = piv ! j)
       \<and> doUpdates [r] A rhs w [s] piv = doUpdate r A rhs w s piv"
  using assms
  by (simp add: doUpdate_def doUpdates_def square_def power2_eq_square Let_def)

theorem doUpdate_contract_witness:
  "(0::nat) < length [1::real, 5]
   \<and> doUpdate 0 [[2, 0], [0, 0]] [7, 1] 1 3 [1, 5] = (16, [3, 5])
   \<and> doUpdate 1 [[2, 0], [0, 0]] [7, 1] 1 3 [1, 5] = (4, [1, 5])"
proof -
  have h: "(0::nat) < length [1::real, 5]" by simp
  have "snd (doUpdate 0 [[2, 0], [0, 0]] [7, 1] 1 3 [1, 5]) ! 0 = (3::real)"
    using doUpdate_contract [OF h, of "[[2, 0], [0, 0]]" "[7, 1]" 1 3]
    by (simp add: elt_def)
  then show ?thesis
    by (simp add: doUpdate_def elt_def square_def Let_def)
qed

subsection \<open>The two loops of the norm caps\<close>

lemma foldl_add_sum_list:
  "foldl (\<lambda>s i. s + f i) a xs = a + sum_list (map f xs)" for a :: real
  by (induction xs arbitrary: a) simp_all

lemma sumSquares_sum_list: "sumSquares IV piv = (\<Sum>i\<leftarrow>IV. (piv ! i)\<^sup>2)"
  by (simp add: sumSquares_def foldl_add_sum_list square_def power2_eq_square)

lemma sumSquares_nonneg: "0 \<le> sumSquares IV piv"
  by (auto simp: sumSquares_sum_list intro!: sum_list_nonneg)

lemma length_scaleEntries [simp]: "length (scaleEntries s IV piv) = length piv"
  unfolding scaleEntries_def by (induction IV arbitrary: piv) simp_all

lemma scaleEntries_Cons: "scaleEntries s (i # IV) piv = scaleEntries s IV (piv[i := piv ! i * s])"
  by (simp add: scaleEntries_def)

lemma scaleEntries_Nil: "scaleEntries s [] piv = piv"
  by (simp add: scaleEntries_def)

lemma scaleEntries_nth:
  "j < length piv \<Longrightarrow> scaleEntries s IV piv ! j = piv ! j * s ^ count_list IV j"
proof (induction IV arbitrary: piv)
  case Nil
  then show ?case by (simp add: scaleEntries_Nil)
next
  case (Cons i IV)
  then show ?case
    by (cases "i = j") (simp_all add: scaleEntries_Cons)
qed

lemma scaleEntries_outside:
  "j \<notin> set IV \<Longrightarrow> scaleEntries s IV piv ! j = piv ! j"
proof (induction IV arbitrary: piv)
  case Nil
  then show ?case by (simp add: scaleEntries_Nil)
next
  case (Cons i IV)
  then show ?case by (simp add: scaleEntries_Cons)
qed

lemma count_list_distinct: "distinct xs \<Longrightarrow> x \<in> set xs \<Longrightarrow> count_list xs x = 1"
  by (induction xs) (auto simp: count_list_0_iff)

lemma scale_bounds:
  assumes "0 \<le> c" "c < n2"
  shows "0 \<le> sqrt (c / n2)" "sqrt (c / n2) < 1"
proof -
  from assms have pos: "0 < n2" by simp
  show "0 \<le> sqrt (c / n2)" using assms pos by simp
  have "c / n2 < 1" using assms pos by simp
  then show "sqrt (c / n2) < 1" using real_sqrt_lt_1_iff by blast
qed

lemma boundVector_Rolling:
  "sumSquares IV piv \<le> square maxLen \<Longrightarrow> boundVector maxLen IV piv = (Rolling, piv)"
  by (simp add: boundVector_def Let_def)

lemma boundVector_Sliding:
  "\<not> sumSquares IV piv \<le> square maxLen \<Longrightarrow>
   boundVector maxLen IV piv =
     (Sliding, scaleEntries (sqrt (square maxLen / sumSquares IV piv)) IV piv)"
  by (simp add: boundVector_def Let_def)

subsection \<open>The vector-norm cap\<close>

text \<open>
  Claim C4, as amended.  For every cap \<open>L\<close>, every list \<open>IV\<close> of distinct indices
  inside the vector, and every vector \<open>pi\<close>: \<open>boundVector\<close> compares the sum of
  the squares of \<open>pi\<close> over \<open>IV\<close> with the square of \<open>L\<close>.  When the sum is at
  most the square of the cap it leaves \<open>pi\<close> as it is and reports rolling.
  Otherwise it reports sliding and multiplies every \<open>IV\<close> component by the one
  factor \<open>sqrt (L\<^sup>2 / sum)\<close>, which lies in \<open>[0, 1)\<close> and is 0 when \<open>L\<close> is 0.  The
  length of \<open>pi\<close> is kept and no entry outside \<open>IV\<close> is modified.
\<close>

theorem boundVector_contract:
  assumes "distinct IV" and "\<forall>i\<in>set IV. i < length piv"
  shows "(sumSquares IV piv \<le> square L \<longrightarrow> boundVector L IV piv = (Rolling, piv))
       \<and> (\<not> sumSquares IV piv \<le> square L \<longrightarrow>
            fst (boundVector L IV piv) = Sliding
          \<and> 0 \<le> sqrt (square L / sumSquares IV piv)
          \<and> sqrt (square L / sumSquares IV piv) < 1
          \<and> (L = 0 \<longrightarrow> sqrt (square L / sumSquares IV piv) = 0)
          \<and> (\<forall>i\<in>set IV. snd (boundVector L IV piv) ! i
                = piv ! i * sqrt (square L / sumSquares IV piv)))
       \<and> length (snd (boundVector L IV piv)) = length piv
       \<and> (\<forall>j. j \<notin> set IV \<longrightarrow> snd (boundVector L IV piv) ! j = piv ! j)"
proof (intro conjI impI)
  assume "sumSquares IV piv \<le> square L"
  then show "boundVector L IV piv = (Rolling, piv)"
    by (rule boundVector_Rolling)
next
  show "length (snd (boundVector L IV piv)) = length piv"
    by (simp add: boundVector_def Let_def)
next
  show "\<forall>j. j \<notin> set IV \<longrightarrow> snd (boundVector L IV piv) ! j = piv ! j"
    by (simp add: boundVector_def Let_def scaleEntries_outside)
next
  assume nle: "\<not> sumSquares IV piv \<le> square L"
  have sq: "0 \<le> square L" by (simp add: square_def)
  have lt: "square L < sumSquares IV piv" using nle by simp
  note bv = boundVector_Sliding [OF nle]
  show "fst (boundVector L IV piv) = Sliding" by (simp add: bv)
  show "0 \<le> sqrt (square L / sumSquares IV piv)" using sq lt by (rule scale_bounds)
  show "sqrt (square L / sumSquares IV piv) < 1" using sq lt by (rule scale_bounds)
  show "sqrt (square L / sumSquares IV piv) = 0" if "L = 0"
    using that by (simp add: square_def)
  show "\<forall>i\<in>set IV. snd (boundVector L IV piv) ! i
          = piv ! i * sqrt (square L / sumSquares IV piv)"
  proof
    fix i assume i: "i \<in> set IV"
    then have "count_list IV i = 1" using assms(1) by (simp add: count_list_distinct)
    then show "snd (boundVector L IV piv) ! i = piv ! i * sqrt (square L / sumSquares IV piv)"
      using i assms(2) by (simp add: bv scaleEntries_nth)
  qed
qed

theorem boundVector_contract_witness:
  "boundVector 5 [0, 2] [3, 7, 4] = (Rolling, [3, 7, 4])
   \<and> boundVector 5 [0, 2] [6, 7, 8] = (Sliding, [3, 7, 4])"
proof -
  have h: "distinct [0::nat, 2]" by simp
  have r1: "\<forall>i\<in>set [0::nat, 2]. i < length [3::real, 7, 4]" by simp
  have r2: "\<forall>i\<in>set [0::nat, 2]. i < length [6::real, 7, 8]" by simp
  have n1: "sumSquares [0, 2] [3, 7, 4] = 25"
    by (simp add: sumSquares_def square_def)
  have n2: "sumSquares [0, 2] [6, 7, 8] = 100"
    by (simp add: sumSquares_def square_def)
  have q: "sqrt (1 / 4) = 1 / 2"
    by (rule real_sqrt_unique) (simp_all add: power2_eq_square)
  have a: "boundVector 5 [0, 2] [3, 7, 4] = (Rolling, [3, 7, 4])"
    using boundVector_contract [OF h r1, of 5] by (simp add: n1 square_def)
  have b: "fst (boundVector 5 [0, 2] [6, 7, 8]) = Sliding
         \<and> snd (boundVector 5 [0, 2] [6, 7, 8]) ! 0 = 3
         \<and> snd (boundVector 5 [0, 2] [6, 7, 8]) ! 2 = 4
         \<and> snd (boundVector 5 [0, 2] [6, 7, 8]) ! 1 = 7
         \<and> length (snd (boundVector 5 [0, 2] [6, 7, 8])) = 3"
    using boundVector_contract [OF h r2, of 5] by (simp add: n2 square_def q)
  have "snd (boundVector 5 [0, 2] [6, 7, 8]) = [3, 7, 4]"
    using b by (intro nth_equalityI) (auto simp: less_Suc_eq eval_nat_numeral)
  with a b show ?thesis by (simp add: prod_eq_iff)
qed

text \<open>With the cap 0 and a non-zero vector the factor is 0, not strictly
  positive: the vector is scaled to zero.\<close>

theorem boundVector_zero_cap_counterexample:
  "boundVector 0 [0] [1] = (Sliding, [0])
   \<and> \<not> (0 < (0::real) / sqrt (sumSquares [0] [1]))"
  by (simp add: boundVector_def sumSquares_def scaleEntries_def square_def Let_def)

subsection \<open>Re-applying a projection\<close>

text \<open>
  Claim C5, as amended.  Applying the sign bound or the two-sided bound (with
  ordered bounds) again to its own output leaves the multiplier as the first
  application left it, and the second application reports the status of an
  unclamped value, active or engaged, whatever the first reported.  Applying a
  norm cap or the friction-cone cap again after it reported rolling repeats the
  first result: the multipliers as they were, and rolling.
\<close>

theorem projections_reapplied:
  "boundUnilateral sign (snd (boundUnilateral sign p))
     = (UniActive, snd (boundUnilateral sign p))
   \<and> (lb \<le> ub \<longrightarrow>
        boundScalar lb (snd (boundScalar lb pa ub)) ub = (Engaged, snd (boundScalar lb pa ub)))
   \<and> (fst (boundVector L IV piv) = Rolling \<longrightarrow>
        snd (boundVector L IV piv) = piv
        \<and> boundVector L IV (snd (boundVector L IV piv)) = (Rolling, piv))
   \<and> (fst (boundFriction mu IN IF piw) = Rolling \<longrightarrow>
        snd (boundFriction mu IN IF piw) = piw
        \<and> boundFriction mu IN IF (snd (boundFriction mu IN IF piw)) = (Rolling, piw))"
proof (intro conjI impI)
  show "boundUnilateral sign (snd (boundUnilateral sign p))
          = (UniActive, snd (boundUnilateral sign p))"
    by (simp add: boundUnilateral_def)
next
  assume "lb \<le> ub"
  then show "boundScalar lb (snd (boundScalar lb pa ub)) ub = (Engaged, snd (boundScalar lb pa ub))"
    by (simp add: boundScalar_def)
next
  assume r: "fst (boundVector L IV piv) = Rolling"
  then have le: "sumSquares IV piv \<le> square L"
    by (simp add: boundVector_def Let_def split: if_splits)
  then show "snd (boundVector L IV piv) = piv"
    by (simp add: boundVector_Rolling)
  from le show "boundVector L IV (snd (boundVector L IV piv)) = (Rolling, piv)"
    by (simp add: boundVector_Rolling)
next
  assume r: "fst (boundFriction mu IN IF piw) = Rolling"
  then have le: "sumSquares IF piw \<le> mu * mu * sumSquares IN piw"
    by (simp add: boundFriction_def Let_def split: if_splits)
  then show "snd (boundFriction mu IN IF piw) = piw"
    by (simp add: boundFriction_def Let_def)
  from le show "boundFriction mu IN IF (snd (boundFriction mu IN IF piw)) = (Rolling, piw)"
    by (simp add: boundFriction_def Let_def)
qed

theorem projections_reapplied_witness:
  "boundUnilateral 1 1 = (UniOff, 0) \<and> boundUnilateral 1 0 = (UniActive, 0)
   \<and> boundScalar 0 7 2 = (SlipHigh, 2) \<and> boundScalar 0 2 2 = (Engaged, 2)
   \<and> boundVector 5 [0, 2] [3, 7, 4] = (Rolling, [3, 7, 4])
   \<and> boundFriction (1 / 2) [2] [0, 3] [3, 7, 10, 4] = (Rolling, [3, 7, 10, 4])"
proof -
  have v: "boundVector 5 [0, 2] [3, 7, 4] = (Rolling, [3, 7, 4])"
    by (simp add: boundVector_def sumSquares_def square_def)
  have f: "boundFriction (1 / 2) [2] [0, 3] [3, 7, 10, 4] = (Rolling, [3, 7, 10, 4])"
    by (simp add: boundFriction_def sumSquares_def square_def)
  have u: "boundUnilateral 1 1 = (UniOff, 0)" by (simp add: boundUnilateral_def)
  have s: "boundScalar 0 7 2 = (SlipHigh, 2)" by (simp add: boundScalar_def)
  have "(0::real) \<le> 2" "fst (boundVector 5 [0, 2] [3, 7, 4]) = Rolling"
    "fst (boundFriction (1 / 2) [2] [0, 3] [3, 7, 10, 4]) = Rolling"
    by (simp_all add: v f)
  with projections_reapplied [where sign = 1 and p = 1 and lb = 0 and ub = 2 and pa = 7
      and IV = "[0, 2]" and piv = "[3, 7, 4]" and L = 5
      and IF = "[0, 3]" and piw = "[3, 7, 10, 4]" and IN = "[2]" and mu = "1 / 2"]
  show ?thesis
    unfolding u s v f by simp
qed

text \<open>The sign bound that releases reports "off" the first time and "active" the
  second: the status is not repeated.\<close>

theorem boundUnilateral_status_counterexample:
  "boundUnilateral 1 1 = (UniOff, 0)
   \<and> boundUnilateral 1 (snd (boundUnilateral 1 1)) = (UniActive, 0)"
  by (simp add: boundUnilateral_def)

subsection \<open>Nothing to do\<close>

text \<open>
  Claim C10.  With an empty participating set \<open>solve\<close> returns true without
  entering the loop: the data (the multipliers and every record) are returned as
  they were passed, the iteration and failure counters are as they were, and
  only the count of solves of the phase is one more.
\<close>

theorem solve_nothing_to_do:
  "solve S phase [] A D rhs d
     = (True, S\<lparr>m_nSolves := (m_nSolves S)(phase := m_nSolves S phase + 1)\<rparr>, d)
   \<and> d_pi (snd (snd (solve S phase [] A D rhs d))) = d_pi d
   \<and> m_nIters (fst (snd (solve S phase [] A D rhs d))) = m_nIters S
   \<and> m_nFail (fst (snd (solve S phase [] A D rhs d))) = m_nFail S"
  by (simp add: solve_def)

subsection \<open>The diagonal regularisation\<close>

text \<open>
  Claim C6.  Two calls of \<open>solve\<close> that differ in the vector \<open>D\<close> only return
  the same value, the same solver counters and the same data (the multipliers
  and the status of every record).
\<close>

theorem solve_ignores_D:
  "solve S phase participating A D rhs d = solve S phase participating A D' rhs d"
  by (simp add: solve_def)

subsection \<open>A loop over records\<close>

lemma forEach_length: "length (fst (forEach body rts a)) = length rts"
  by (induction rts arbitrary: a) (simp_all add: split_beta Let_def)

lemma forEach_append:
  "forEach body (xs @ ys) a =
     (fst (forEach body xs a) @ fst (forEach body ys (snd (forEach body xs a))),
      snd (forEach body ys (snd (forEach body xs a))))"
  by (induction xs arbitrary: a) (simp_all add: split_beta Let_def)

lemma forEach_single: "forEach body [rt] a = ([fst (body rt a)], snd (body rt a))"
  by (simp add: split_beta Let_def)

lemma forEach_snd_take_Suc:
  assumes "k < length rts"
  shows "snd (forEach body (take (Suc k) rts) a)
           = snd (body (rts ! k) (snd (forEach body (take k rts) a)))"
  using assms by (simp add: take_Suc_conv_app_nth forEach_append split_beta Let_def)

lemma forEach_fst_nth:
  assumes "k < length rts"
  shows "fst (forEach body rts a) ! k
           = fst (body (rts ! k) (snd (forEach body (take k rts) a)))"
proof -
  have "rts = take k rts @ rts ! k # drop (Suc k) rts"
    using assms by (simp add: id_take_nth_drop [symmetric])
  then have "forEach body rts a = forEach body (take k rts @ rts ! k # drop (Suc k) rts) a"
    by simp
  moreover have "length (fst (forEach body (take k rts) a)) = k"
    using assms by (simp add: forEach_length)
  ultimately show ?thesis
    by (simp add: forEach_append nth_append split_beta Let_def
        del: append_take_drop_id)
qed

subsection \<open>The sweep, stage by stage\<close>

lemma sweep_stages:
  "sweep participating A rhs w d =
     (d\<lparr>d_pi := s_pi (consLtdAt participating A rhs w d (length (consLtdFriction d))),
        unconditional := fst (forEach (uncondStep participating A rhs w) (unconditional d)
                                (sweepStart d)),
        uniContact := fst (forEach (frictionStep participating A rhs w)
                             (contactsAfterNormals participating A rhs w d)
                             (normalsAt participating A rhs w d (length (uniContact d)))),
        boundedCons := fst (forEach (boundedStep participating A rhs w) (boundedCons d)
                              (frictionAt participating A rhs w d (length (uniContact d)))),
        consLtdFriction := fst (forEach (consLtdStep participating A rhs w) (consLtdFriction d)
                                  (stateLtdAt participating A rhs w d (length (stateLtdFriction d)))),
        stateLtdFriction := fst (forEach (stateLtdStep participating A rhs w) (stateLtdFriction d)
                                   (boundedAt participating A rhs w d (length (boundedCons d))))\<rparr>,
      sum2all (consLtdAt participating A rhs w d (length (consLtdFriction d))),
      sum2enf (consLtdAt participating A rhs w d (length (consLtdFriction d))))"
  by (simp add: sweep_def Let_def split_beta consLtdAt_def stateLtdAt_def boundedAt_def
      frictionAt_def contactsAfterNormals_def normalsAt_def uncondAt_def sweepStart_def
      forEach_length)


lemma uncondAt_0: "uncondAt participating A rhs w d 0 = sweepStart d"
  by (simp add: uncondAt_def)

lemma uncondAt_Suc:
  "k < length (unconditional d) \<Longrightarrow>
   uncondAt participating A rhs w d (Suc k)
     = snd (uncondStep participating A rhs w (unconditional d ! k)
              (uncondAt participating A rhs w d k))"
  unfolding uncondAt_def by (rule forEach_snd_take_Suc)

lemma normalsAt_0:
  "normalsAt participating A rhs w d 0
     = uncondAt participating A rhs w d (length (unconditional d))"
  by (simp add: normalsAt_def)

lemma normalsAt_Suc:
  "k < length (uniContact d) \<Longrightarrow>
   normalsAt participating A rhs w d (Suc k)
     = snd (normalStep participating A rhs w (uniContact d ! k)
              (normalsAt participating A rhs w d k))"
  unfolding normalsAt_def by (rule forEach_snd_take_Suc)

lemma contactsAfterNormals_length:
  "length (contactsAfterNormals participating A rhs w d) = length (uniContact d)"
  by (simp add: contactsAfterNormals_def forEach_length)

lemma contactsAfterNormals_nth:
  "k < length (uniContact d) \<Longrightarrow>
   contactsAfterNormals participating A rhs w d ! k
     = fst (normalStep participating A rhs w (uniContact d ! k)
              (normalsAt participating A rhs w d k))"
  unfolding contactsAfterNormals_def normalsAt_def by (rule forEach_fst_nth)

lemma frictionAt_0:
  "frictionAt participating A rhs w d 0
     = normalsAt participating A rhs w d (length (uniContact d))"
  by (simp add: frictionAt_def)

lemma frictionAt_Suc:
  "k < length (uniContact d) \<Longrightarrow>
   frictionAt participating A rhs w d (Suc k)
     = snd (frictionStep participating A rhs w
              (contactsAfterNormals participating A rhs w d ! k)
              (frictionAt participating A rhs w d k))"
  unfolding frictionAt_def
  by (rule forEach_snd_take_Suc) (simp add: contactsAfterNormals_length)

lemma sweep_uniContact_nth:
  "k < length (uniContact d) \<Longrightarrow>
   uniContact (fst (sweep participating A rhs w d)) ! k
     = fst (frictionStep participating A rhs w
              (contactsAfterNormals participating A rhs w d ! k)
              (frictionAt participating A rhs w d k))"
  unfolding frictionAt_def
  by (simp add: sweep_stages forEach_fst_nth contactsAfterNormals_length)

lemma boundedAt_0:
  "boundedAt participating A rhs w d 0
     = frictionAt participating A rhs w d (length (uniContact d))"
  by (simp add: boundedAt_def)

lemma boundedAt_Suc:
  "k < length (boundedCons d) \<Longrightarrow>
   boundedAt participating A rhs w d (Suc k)
     = snd (boundedStep participating A rhs w (boundedCons d ! k)
              (boundedAt participating A rhs w d k))"
  unfolding boundedAt_def by (rule forEach_snd_take_Suc)

lemma sweep_boundedCons_nth:
  "k < length (boundedCons d) \<Longrightarrow>
   boundedCons (fst (sweep participating A rhs w d)) ! k
     = fst (boundedStep participating A rhs w (boundedCons d ! k)
              (boundedAt participating A rhs w d k))"
  unfolding boundedAt_def by (simp add: sweep_stages forEach_fst_nth)

lemma stateLtdAt_0:
  "stateLtdAt participating A rhs w d 0
     = boundedAt participating A rhs w d (length (boundedCons d))"
  by (simp add: stateLtdAt_def)

lemma stateLtdAt_Suc:
  "k < length (stateLtdFriction d) \<Longrightarrow>
   stateLtdAt participating A rhs w d (Suc k)
     = snd (stateLtdStep participating A rhs w (stateLtdFriction d ! k)
              (stateLtdAt participating A rhs w d k))"
  unfolding stateLtdAt_def by (rule forEach_snd_take_Suc)

lemma sweep_stateLtdFriction_nth:
  "k < length (stateLtdFriction d) \<Longrightarrow>
   stateLtdFriction (fst (sweep participating A rhs w d)) ! k
     = fst (stateLtdStep participating A rhs w (stateLtdFriction d ! k)
              (stateLtdAt participating A rhs w d k))"
  unfolding stateLtdAt_def by (simp add: sweep_stages forEach_fst_nth)

lemma consLtdAt_0:
  "consLtdAt participating A rhs w d 0
     = stateLtdAt participating A rhs w d (length (stateLtdFriction d))"
  by (simp add: consLtdAt_def)

lemma consLtdAt_Suc:
  "k < length (consLtdFriction d) \<Longrightarrow>
   consLtdAt participating A rhs w d (Suc k)
     = snd (consLtdStep participating A rhs w (consLtdFriction d ! k)
              (consLtdAt participating A rhs w d k))"
  unfolding consLtdAt_def by (rule forEach_snd_take_Suc)

lemma sweep_consLtdFriction_nth:
  "k < length (consLtdFriction d) \<Longrightarrow>
   consLtdFriction (fst (sweep participating A rhs w d)) ! k
     = fst (consLtdStep participating A rhs w (consLtdFriction d ! k)
              (consLtdAt participating A rhs w d k))"
  unfolding consLtdAt_def by (simp add: sweep_stages forEach_fst_nth)

subsection \<open>The six loop bodies\<close>

lemma normalStep_skip:
  "m_type rt \<noteq> Participate \<Longrightarrow> normalStep participating A rhs w rt s = (rt, s)"
  by (simp add: normalStep_def)

lemma normalStep_fields:
  "m_type (fst (normalStep participating A rhs w rt s)) = m_type rt"
  "m_Fk (fst (normalStep participating A rhs w rt s)) = m_Fk rt"
  "m_Nk (fst (normalStep participating A rhs w rt s)) = m_Nk rt"
  "m_effMu (fst (normalStep participating A rhs w rt s)) = m_effMu rt"
  "m_knownPi (fst (normalStep participating A rhs w rt s)) = m_knownPi rt"
  "m_sign (fst (normalStep participating A rhs w rt s)) = m_sign rt"
  "m_frictionCond (fst (normalStep participating A rhs w rt s)) = m_frictionCond rt"
  "hasFriction (fst (normalStep participating A rhs w rt s)) = hasFriction rt"
  by (simp_all add: normalStep_def hasFriction_def Let_def split_beta)

lemma frictionStep_skip:
  "m_type rt = Observe \<or> \<not> hasFriction rt \<Longrightarrow>
   frictionStep participating A rhs w rt s = (rt, s)"
  by (simp add: frictionStep_def)

lemma frictionStep_contactCond:
  "m_contactCond (fst (frictionStep participating A rhs w rt s)) = m_contactCond rt"
  by (simp add: frictionStep_def Let_def split_beta)

subsection \<open>The error sums of a sweep\<close>

lemma square_nonneg: "0 \<le> square x"
  by (simp add: square_def)

lemma doUpdate_er2_nonneg: "0 \<le> fst (doUpdate row A rhs w rowSum piv)"
  by (simp add: doUpdate_def Let_def square_nonneg)

lemma foldl_fst_nonneg:
  fixes f :: "real \<times> 'b \<Rightarrow> 'c \<Rightarrow> real \<times> 'b"
  assumes "\<And>e p k. 0 \<le> e \<Longrightarrow> 0 \<le> fst (f (e, p) k)" and "0 \<le> fst a"
  shows "0 \<le> fst (foldl f a ks)"
  using assms(2)
proof (induction ks arbitrary: a)
  case Nil
  then show ?case by simp
next
  case (Cons k ks)
  have "0 \<le> fst (f (fst a, snd a) k)"
    using Cons.prems by (rule assms(1))
  then have "0 \<le> fst (foldl f (f a k) ks)"
    by (intro Cons.IH) simp
  then show ?case by simp
qed

lemma doUpdates_er2_nonneg: "0 \<le> fst (doUpdates rows A rhs w rowSums piv)"
  unfolding doUpdates_def
  by (rule foldl_fst_nonneg) (simp_all add: Let_def square_nonneg)

lemma forEach_preserves:
  assumes "\<And>rt a. P a \<Longrightarrow> P (snd (body rt a))" and "P a"
  shows "P (snd (forEach body rts a))"
  using assms(2)
proof (induction rts arbitrary: a)
  case Nil
  then show ?case by simp
next
  case (Cons rt rts)
  from Cons.prems have "P (snd (body rt a))" by (rule assms(1))
  then have "P (snd (forEach body rts (snd (body rt a))))" by (rule Cons.IH)
  then show ?case by (simp add: split_beta Let_def)
qed

lemma uncondStep_ordered:
  "sumsOrdered s \<Longrightarrow> sumsOrdered (snd (uncondStep participating A rhs w rt s))"
  using doUpdates_er2_nonneg [of "m_mults rt" A rhs w "doRowSums participating (m_mults rt) A (s_pi s)" "s_pi s"]
  by (simp add: sumsOrdered_def uncondStep_def Let_def split_beta)

lemma normalStep_ordered:
  "sumsOrdered s \<Longrightarrow> sumsOrdered (snd (normalStep participating A rhs w rt s))"
  using doUpdate_er2_nonneg [of "m_Nk rt" A rhs w "doRowSum participating (m_Nk rt) A (s_pi s)" "s_pi s"]
  by (simp add: sumsOrdered_def normalStep_def Let_def split_beta)

lemma frictionStep_ordered:
  "sumsOrdered s \<Longrightarrow> sumsOrdered (snd (frictionStep participating A rhs w rt s))"
  using doUpdates_er2_nonneg [of "m_Fk rt" A rhs w "doRowSums participating (m_Fk rt) A (s_pi s)" "s_pi s"]
  by (simp add: sumsOrdered_def frictionStep_def Let_def split_beta)

lemma boundedStep_ordered:
  "sumsOrdered s \<Longrightarrow> sumsOrdered (snd (boundedStep participating A rhs w rt s))"
  using doUpdate_er2_nonneg [of "m_ix rt" A rhs w "doRowSum participating (m_ix rt) A (s_pi s)" "s_pi s"]
  by (simp add: sumsOrdered_def boundedStep_def Let_def split_beta)

lemma stateLtdStep_ordered:
  "sumsOrdered s \<Longrightarrow> sumsOrdered (snd (stateLtdStep participating A rhs w rt s))"
  using doUpdates_er2_nonneg [of "m_Fk_SL rt" A rhs w "doRowSums participating (m_Fk_SL rt) A (s_pi s)" "s_pi s"]
  by (simp add: sumsOrdered_def stateLtdStep_def Let_def split_beta)

lemma consLtdStep_ordered:
  "sumsOrdered s \<Longrightarrow> sumsOrdered (snd (consLtdStep participating A rhs w rt s))"
  using doUpdates_er2_nonneg [of "m_Fk_CL rt" A rhs w "doRowSums participating (m_Fk_CL rt) A (s_pi s)" "s_pi s"]
  by (simp add: sumsOrdered_def consLtdStep_def Let_def split_beta)

lemma sweep_sums_ordered:
  "0 \<le> snd (snd (sweep participating A rhs w d))
   \<and> snd (snd (sweep participating A rhs w d)) \<le> fst (snd (sweep participating A rhs w d))"
proof -
  define s0 where "s0 = \<lparr>s_pi = d_pi d, sum2all = 0, sum2enf = 0\<rparr>"
  define s1 where "s1 = snd (forEach (uncondStep participating A rhs w) (unconditional d) s0)"
  define uc1 where "uc1 = fst (forEach (normalStep participating A rhs w) (uniContact d) s1)"
  define s2 where "s2 = snd (forEach (normalStep participating A rhs w) (uniContact d) s1)"
  define s3 where "s3 = snd (forEach (frictionStep participating A rhs w) uc1 s2)"
  define s4 where "s4 = snd (forEach (boundedStep participating A rhs w) (boundedCons d) s3)"
  define s5 where "s5 = snd (forEach (stateLtdStep participating A rhs w) (stateLtdFriction d) s4)"
  define s6 where "s6 = snd (forEach (consLtdStep participating A rhs w) (consLtdFriction d) s5)"
  have sw: "snd (sweep participating A rhs w d) = (sum2all s6, sum2enf s6)"
    by (simp add: sweep_def Let_def split_beta s0_def s1_def uc1_def s2_def s3_def s4_def
        s5_def s6_def)
  have "sumsOrdered s0"
    by (simp add: sumsOrdered_def s0_def)
  then have "sumsOrdered s1"
    unfolding s1_def by (intro forEach_preserves [where P = sumsOrdered] uncondStep_ordered)
  then have "sumsOrdered s2"
    unfolding s2_def by (intro forEach_preserves [where P = sumsOrdered] normalStep_ordered)
  then have "sumsOrdered s3"
    unfolding s3_def by (intro forEach_preserves [where P = sumsOrdered] frictionStep_ordered)
  then have "sumsOrdered s4"
    unfolding s4_def by (intro forEach_preserves [where P = sumsOrdered] boundedStep_ordered)
  then have "sumsOrdered s5"
    unfolding s5_def by (intro forEach_preserves [where P = sumsOrdered] stateLtdStep_ordered)
  then have "sumsOrdered s6"
    unfolding s6_def by (intro forEach_preserves [where P = sumsOrdered] consLtdStep_ordered)
  then show ?thesis
    by (simp add: sw sumsOrdered_def)
qed

lemma uncond_record:
  assumes "k < length (unconditional d)"
  shows "let s = uncondAt participating A rhs w d k;
             s' = uncondAt participating A rhs w d (Suc k);
             rows = m_mults (unconditional d ! k);
             e = fst (doUpdates rows A rhs w (doRowSums participating rows A (s_pi s)) (s_pi s))
         in 0 \<le> e \<and> sum2all s' = sum2all s + e \<and> sum2enf s' = sum2enf s + e"
  unfolding Let_def uncondAt_Suc [OF assms]
  by (simp add: uncondStep_def Let_def split_beta doUpdates_er2_nonneg)

lemma normal_record:
  assumes "k < length (uniContact d)"
  shows "let rt = uniContact d ! k;
             s = normalsAt participating A rhs w d k;
             s' = normalsAt participating A rhs w d (Suc k);
             e = fst (doUpdate (m_Nk rt) A rhs w (doRowSum participating (m_Nk rt) A (s_pi s)) (s_pi s))
         in if m_type rt = Participate
            then 0 \<le> e \<and> sum2all s' = sum2all s + e
               \<and> sum2enf s' =
                   (if m_contactCond (uniContact (fst (sweep participating A rhs w d)) ! k) = UniActive
                    then sum2enf s + e else sum2enf s)
            else s' = s"
proof -
  have c: "m_contactCond (uniContact (fst (sweep participating A rhs w d)) ! k)
        = m_contactCond (fst (normalStep participating A rhs w (uniContact d ! k)
              (normalsAt participating A rhs w d k)))"
    by (simp add: sweep_uniContact_nth [OF assms] frictionStep_contactCond
        contactsAfterNormals_nth [OF assms])
  show ?thesis
    unfolding Let_def normalsAt_Suc [OF assms] c
    by (simp add: normalStep_def Let_def split_beta doUpdate_er2_nonneg)
qed

lemma friction_record:
  assumes "k < length (uniContact d)"
  shows "let rt = uniContact d ! k;
             s = frictionAt participating A rhs w d k;
             s' = frictionAt participating A rhs w d (Suc k);
             e = fst (doUpdates (m_Fk rt) A rhs w
                        (doRowSums participating (m_Fk rt) A (s_pi s)) (s_pi s))
         in if m_type rt \<noteq> Observe \<and> hasFriction rt
            then 0 \<le> e \<and> sum2all s' = sum2all s + e
               \<and> sum2enf s' =
                   (if m_frictionCond (uniContact (fst (sweep participating A rhs w d)) ! k) = Rolling
                    then sum2enf s + e else sum2enf s)
            else s' = s"
  unfolding Let_def frictionAt_Suc [OF assms] sweep_uniContact_nth [OF assms]
    contactsAfterNormals_nth [OF assms]
  by (simp add: frictionStep_def [of _ _ _ _ "fst (normalStep participating A rhs w (uniContact d ! k) (normalsAt participating A rhs w d k))"]
      normalStep_fields Let_def split_beta doUpdates_er2_nonneg)

lemma bounded_record:
  assumes "k < length (boundedCons d)"
  shows "let rt = boundedCons d ! k;
             s = boundedAt participating A rhs w d k;
             s' = boundedAt participating A rhs w d (Suc k);
             e = fst (doUpdate (m_ix rt) A rhs w (doRowSum participating (m_ix rt) A (s_pi s)) (s_pi s))
         in 0 \<le> e \<and> sum2all s' = sum2all s + e
          \<and> sum2enf s' =
              (if m_boundedCond (boundedCons (fst (sweep participating A rhs w d)) ! k) = Engaged
               then sum2enf s + e else sum2enf s)"
  unfolding Let_def boundedAt_Suc [OF assms] sweep_boundedCons_nth [OF assms]
  by (simp add: boundedStep_def Let_def split_beta doUpdate_er2_nonneg)

lemma stateLtd_record:
  assumes "k < length (stateLtdFriction d)"
  shows "let rt = stateLtdFriction d ! k;
             s = stateLtdAt participating A rhs w d k;
             s' = stateLtdAt participating A rhs w d (Suc k);
             e = fst (doUpdates (m_Fk_SL rt) A rhs w
                        (doRowSums participating (m_Fk_SL rt) A (s_pi s)) (s_pi s))
         in 0 \<le> e \<and> sum2all s' = sum2all s + e
          \<and> sum2enf s' =
              (if m_frictionCond_SL (stateLtdFriction (fst (sweep participating A rhs w d)) ! k) = Rolling
               then sum2enf s + e else sum2enf s)"
  unfolding Let_def stateLtdAt_Suc [OF assms] sweep_stateLtdFriction_nth [OF assms]
  by (simp add: stateLtdStep_def Let_def split_beta doUpdates_er2_nonneg)

lemma consLtd_record:
  assumes "k < length (consLtdFriction d)"
  shows "let rt = consLtdFriction d ! k;
             s = consLtdAt participating A rhs w d k;
             s' = consLtdAt participating A rhs w d (Suc k);
             e = fst (doUpdates (m_Fk_CL rt) A rhs w
                        (doRowSums participating (m_Fk_CL rt) A (s_pi s)) (s_pi s))
         in 0 \<le> e \<and> sum2all s' = sum2all s + e
          \<and> sum2enf s' =
              (if m_frictionCond_CL (consLtdFriction (fst (sweep participating A rhs w d)) ! k) = Rolling
               then sum2enf s + e else sum2enf s)"
  unfolding Let_def consLtdAt_Suc [OF assms] sweep_consLtdFriction_nth [OF assms]
  by (simp add: consLtdStep_def Let_def split_beta doUpdates_er2_nonneg)


text \<open>
  Claim C7.  In every sweep, whatever the data and the relaxation factor it
  starts from, the two error sums at its end satisfy
  \<open>sum2all \<ge> sum2enf \<ge> 0\<close>.  The sums returned are those of the state in which
  the sixth loop ends; the six loops run one after the other, each from the
  state the one before ended in, and the first from sums of zero.  For every
  record a loop works on, its squared error \<open>e\<close> is non-negative and is added to
  \<open>sum2all\<close>; it is added to \<open>sum2enf\<close> always for an unconditional constraint,
  and otherwise exactly when the status the sweep records for that record is
  active (a contact normal), rolling (the three kinds of friction) or engaged (a
  bounded scalar), \<open>sum2enf\<close> staying as it is when not.  A contact normal that
  does not participate, and the friction of a contact that is observed or has
  none, leave the state as it is.
\<close>

theorem sweep_error_sums:
  "0 \<le> snd (snd (sweep participating A rhs w d))
   \<and> snd (snd (sweep participating A rhs w d)) \<le> fst (snd (sweep participating A rhs w d))
   \<and> snd (sweep participating A rhs w d)
       = (sum2all (consLtdAt participating A rhs w d (length (consLtdFriction d))),
          sum2enf (consLtdAt participating A rhs w d (length (consLtdFriction d))))
   \<and> sum2all (uncondAt participating A rhs w d 0) = 0
   \<and> sum2enf (uncondAt participating A rhs w d 0) = 0
   \<and> normalsAt participating A rhs w d 0
       = uncondAt participating A rhs w d (length (unconditional d))
   \<and> frictionAt participating A rhs w d 0
       = normalsAt participating A rhs w d (length (uniContact d))
   \<and> boundedAt participating A rhs w d 0
       = frictionAt participating A rhs w d (length (uniContact d))
   \<and> stateLtdAt participating A rhs w d 0
       = boundedAt participating A rhs w d (length (boundedCons d))
   \<and> consLtdAt participating A rhs w d 0
       = stateLtdAt participating A rhs w d (length (stateLtdFriction d))
   \<and> (\<forall>k<length (unconditional d).
         let s = uncondAt participating A rhs w d k;
             s' = uncondAt participating A rhs w d (Suc k);
             rows = m_mults (unconditional d ! k);
             e = fst (doUpdates rows A rhs w (doRowSums participating rows A (s_pi s)) (s_pi s))
         in 0 \<le> e \<and> sum2all s' = sum2all s + e \<and> sum2enf s' = sum2enf s + e)
   \<and> (\<forall>k<length (uniContact d).
         let rt = uniContact d ! k;
             s = normalsAt participating A rhs w d k;
             s' = normalsAt participating A rhs w d (Suc k);
             e = fst (doUpdate (m_Nk rt) A rhs w (doRowSum participating (m_Nk rt) A (s_pi s)) (s_pi s))
         in if m_type rt = Participate
            then 0 \<le> e \<and> sum2all s' = sum2all s + e
               \<and> sum2enf s' =
                   (if m_contactCond (uniContact (fst (sweep participating A rhs w d)) ! k) = UniActive
                    then sum2enf s + e else sum2enf s)
            else s' = s)
   \<and> (\<forall>k<length (uniContact d).
         let rt = uniContact d ! k;
             s = frictionAt participating A rhs w d k;
             s' = frictionAt participating A rhs w d (Suc k);
             e = fst (doUpdates (m_Fk rt) A rhs w
                        (doRowSums participating (m_Fk rt) A (s_pi s)) (s_pi s))
         in if m_type rt \<noteq> Observe \<and> hasFriction rt
            then 0 \<le> e \<and> sum2all s' = sum2all s + e
               \<and> sum2enf s' =
                   (if m_frictionCond (uniContact (fst (sweep participating A rhs w d)) ! k) = Rolling
                    then sum2enf s + e else sum2enf s)
            else s' = s)
   \<and> (\<forall>k<length (boundedCons d).
         let rt = boundedCons d ! k;
             s = boundedAt participating A rhs w d k;
             s' = boundedAt participating A rhs w d (Suc k);
             e = fst (doUpdate (m_ix rt) A rhs w (doRowSum participating (m_ix rt) A (s_pi s)) (s_pi s))
         in 0 \<le> e \<and> sum2all s' = sum2all s + e
          \<and> sum2enf s' =
              (if m_boundedCond (boundedCons (fst (sweep participating A rhs w d)) ! k) = Engaged
               then sum2enf s + e else sum2enf s))
   \<and> (\<forall>k<length (stateLtdFriction d).
         let rt = stateLtdFriction d ! k;
             s = stateLtdAt participating A rhs w d k;
             s' = stateLtdAt participating A rhs w d (Suc k);
             e = fst (doUpdates (m_Fk_SL rt) A rhs w
                        (doRowSums participating (m_Fk_SL rt) A (s_pi s)) (s_pi s))
         in 0 \<le> e \<and> sum2all s' = sum2all s + e
          \<and> sum2enf s' =
              (if m_frictionCond_SL (stateLtdFriction (fst (sweep participating A rhs w d)) ! k) = Rolling
               then sum2enf s + e else sum2enf s))
   \<and> (\<forall>k<length (consLtdFriction d).
         let rt = consLtdFriction d ! k;
             s = consLtdAt participating A rhs w d k;
             s' = consLtdAt participating A rhs w d (Suc k);
             e = fst (doUpdates (m_Fk_CL rt) A rhs w
                        (doRowSums participating (m_Fk_CL rt) A (s_pi s)) (s_pi s))
         in 0 \<le> e \<and> sum2all s' = sum2all s + e
          \<and> sum2enf s' =
              (if m_frictionCond_CL (consLtdFriction (fst (sweep participating A rhs w d)) ! k) = Rolling
               then sum2enf s + e else sum2enf s))"
proof (intro conjI allI impI)
  show "0 \<le> snd (snd (sweep participating A rhs w d))"
    and "snd (snd (sweep participating A rhs w d)) \<le> fst (snd (sweep participating A rhs w d))"
    using sweep_sums_ordered [of participating A rhs w d] by simp_all
  show "snd (sweep participating A rhs w d)
       = (sum2all (consLtdAt participating A rhs w d (length (consLtdFriction d))),
          sum2enf (consLtdAt participating A rhs w d (length (consLtdFriction d))))"
    by (simp add: sweep_stages)
  show "sum2all (uncondAt participating A rhs w d 0) = 0"
    and "sum2enf (uncondAt participating A rhs w d 0) = 0"
    by (simp_all add: uncondAt_0 sweepStart_def)
qed (simp_all only: normalsAt_0 frictionAt_0 boundedAt_0 stateLtdAt_0 consLtdAt_0
      uncond_record normal_record friction_record bounded_record stateLtd_record
      consLtd_record)


text \<open>The definitions one sweep is evaluated with.\<close>

lemmas sweep_eval_defs = sweep_def uncondStep_def normalStep_def frictionStep_def
  boundedStep_def stateLtdStep_def consLtdStep_def doRowSum_def doRowSums_def doUpdate_def
  doUpdates_def boundUnilateral_def boundScalar_def boundVector_def boundFriction_def
  sumSquares_def scaleEntries_def elt_def square_def hasFriction_def Let_def

theorem sweep_error_sums_witness:
  "sweep [0, 2, 3] [[1, 0, 0, 0], [0, 1, 0, 0], [0, 0, 1, 0], [0, 0, 0, 1]] [3, 0, 4, 20] 1
        \<lparr>d_pi = [0, 7, 0, - 10], unconditional = [],
          uniContact = [\<lparr>m_sign = 1, m_type = Participate, m_effMu = 1 / 2, m_Nk = 3,
                          m_Fk = [0, 2], m_knownPi = 0, m_contactCond = UniActive,
                          m_frictionCond = Rolling\<rparr>],
          uniSpeed = [], boundedCons = [], consLtdFriction = [], stateLtdFriction = []\<rparr>
     = (\<lparr>d_pi = [0, 7, 0, 0], unconditional = [],
          uniContact = [\<lparr>m_sign = 1, m_type = Participate, m_effMu = 1 / 2, m_Nk = 3,
                          m_Fk = [0, 2], m_knownPi = 0, m_contactCond = UniOff,
                          m_frictionCond = Sliding\<rparr>],
          uniSpeed = [], boundedCons = [], consLtdFriction = [], stateLtdFriction = []\<rparr>, 925, 0)
   \<and> sum2all (normalsAt [0, 2, 3] [[1, 0, 0, 0], [0, 1, 0, 0], [0, 0, 1, 0], [0, 0, 0, 1]] [3, 0, 4, 20] 1
        \<lparr>d_pi = [0, 7, 0, - 10], unconditional = [],
          uniContact = [\<lparr>m_sign = 1, m_type = Participate, m_effMu = 1 / 2, m_Nk = 3,
                          m_Fk = [0, 2], m_knownPi = 0, m_contactCond = UniActive,
                          m_frictionCond = Rolling\<rparr>],
          uniSpeed = [], boundedCons = [], consLtdFriction = [], stateLtdFriction = []\<rparr> (Suc 0)) = 900
   \<and> sum2enf (normalsAt [0, 2, 3] [[1, 0, 0, 0], [0, 1, 0, 0], [0, 0, 1, 0], [0, 0, 0, 1]] [3, 0, 4, 20] 1
        \<lparr>d_pi = [0, 7, 0, - 10], unconditional = [],
          uniContact = [\<lparr>m_sign = 1, m_type = Participate, m_effMu = 1 / 2, m_Nk = 3,
                          m_Fk = [0, 2], m_knownPi = 0, m_contactCond = UniActive,
                          m_frictionCond = Rolling\<rparr>],
          uniSpeed = [], boundedCons = [], consLtdFriction = [], stateLtdFriction = []\<rparr> (Suc 0)) = 0
   \<and> sweep [0, 2, 3] [[1, 0, 0, 0], [0, 1, 0, 0], [0, 0, 1, 0], [0, 0, 0, 1]] [3, 0, 4, - 20] 1
        \<lparr>d_pi = [0, 7, 0, - 10], unconditional = [],
          uniContact = [\<lparr>m_sign = 1, m_type = Participate, m_effMu = 1 / 2, m_Nk = 3,
                          m_Fk = [0, 2], m_knownPi = 0, m_contactCond = UniActive,
                          m_frictionCond = Rolling\<rparr>],
          uniSpeed = [], boundedCons = [], consLtdFriction = [], stateLtdFriction = []\<rparr>
     = (\<lparr>d_pi = [3, 7, 4, - 20], unconditional = [],
          uniContact = [\<lparr>m_sign = 1, m_type = Participate, m_effMu = 1 / 2, m_Nk = 3,
                          m_Fk = [0, 2], m_knownPi = 0, m_contactCond = UniActive,
                          m_frictionCond = Rolling\<rparr>],
          uniSpeed = [], boundedCons = [], consLtdFriction = [], stateLtdFriction = []\<rparr>, 125, 125)
   \<and> sum2all (normalsAt [0, 2, 3] [[1, 0, 0, 0], [0, 1, 0, 0], [0, 0, 1, 0], [0, 0, 0, 1]] [3, 0, 4, - 20] 1
        \<lparr>d_pi = [0, 7, 0, - 10], unconditional = [],
          uniContact = [\<lparr>m_sign = 1, m_type = Participate, m_effMu = 1 / 2, m_Nk = 3,
                          m_Fk = [0, 2], m_knownPi = 0, m_contactCond = UniActive,
                          m_frictionCond = Rolling\<rparr>],
          uniSpeed = [], boundedCons = [], consLtdFriction = [], stateLtdFriction = []\<rparr> (Suc 0)) = 100
   \<and> sum2enf (normalsAt [0, 2, 3] [[1, 0, 0, 0], [0, 1, 0, 0], [0, 0, 1, 0], [0, 0, 0, 1]] [3, 0, 4, - 20] 1
        \<lparr>d_pi = [0, 7, 0, - 10], unconditional = [],
          uniContact = [\<lparr>m_sign = 1, m_type = Participate, m_effMu = 1 / 2, m_Nk = 3,
                          m_Fk = [0, 2], m_knownPi = 0, m_contactCond = UniActive,
                          m_frictionCond = Rolling\<rparr>],
          uniSpeed = [], boundedCons = [], consLtdFriction = [], stateLtdFriction = []\<rparr> (Suc 0)) = 100"
proof -
  let ?d = "\<lparr>d_pi = [0, 7, 0, - 10], unconditional = [],
          uniContact = [\<lparr>m_sign = 1, m_type = Participate, m_effMu = 1 / 2, m_Nk = 3,
                          m_Fk = [0, 2], m_knownPi = 0, m_contactCond = UniActive,
                          m_frictionCond = Rolling\<rparr>],
          uniSpeed = [], boundedCons = [], consLtdFriction = [], stateLtdFriction = []\<rparr>"
  have e1: "sweep [0, 2, 3] [[1, 0, 0, 0], [0, 1, 0, 0], [0, 0, 1, 0], [0, 0, 0, 1]] [3, 0, 4, 20] 1 ?d
     = (\<lparr>d_pi = [0, 7, 0, 0], unconditional = [],
          uniContact = [\<lparr>m_sign = 1, m_type = Participate, m_effMu = 1 / 2, m_Nk = 3,
                          m_Fk = [0, 2], m_knownPi = 0, m_contactCond = UniOff,
                          m_frictionCond = Sliding\<rparr>],
          uniSpeed = [], boundedCons = [], consLtdFriction = [], stateLtdFriction = []\<rparr>, 925, 0)"
    by (simp add: sweep_eval_defs)
  have e2: "sweep [0, 2, 3] [[1, 0, 0, 0], [0, 1, 0, 0], [0, 0, 1, 0], [0, 0, 0, 1]] [3, 0, 4, - 20] 1 ?d
     = (\<lparr>d_pi = [3, 7, 4, - 20], unconditional = [],
          uniContact = [\<lparr>m_sign = 1, m_type = Participate, m_effMu = 1 / 2, m_Nk = 3,
                          m_Fk = [0, 2], m_knownPi = 0, m_contactCond = UniActive,
                          m_frictionCond = Rolling\<rparr>],
          uniSpeed = [], boundedCons = [], consLtdFriction = [], stateLtdFriction = []\<rparr>, 125, 125)"
    by (simp add: sweep_eval_defs)
  have k: "0 < length (uniContact ?d)" by simp
  have n1: "sum2all (normalsAt [0, 2, 3] [[1, 0, 0, 0], [0, 1, 0, 0], [0, 0, 1, 0], [0, 0, 0, 1]] [3, 0, 4, 20] 1 ?d (Suc 0)) = 900
          \<and> sum2enf (normalsAt [0, 2, 3] [[1, 0, 0, 0], [0, 1, 0, 0], [0, 0, 1, 0], [0, 0, 0, 1]] [3, 0, 4, 20] 1 ?d (Suc 0)) = 0"
    using sweep_error_sums [of "[0, 2, 3]" "[[1, 0, 0, 0], [0, 1, 0, 0], [0, 0, 1, 0], [0, 0, 0, 1]]" "[3, 0, 4, 20]" 1 ?d] k
    by (simp add: e1 Let_def normalsAt_def uncondAt_def sweepStart_def doUpdate_def
        doRowSum_def elt_def square_def)
  have n2: "sum2all (normalsAt [0, 2, 3] [[1, 0, 0, 0], [0, 1, 0, 0], [0, 0, 1, 0], [0, 0, 0, 1]] [3, 0, 4, - 20] 1 ?d (Suc 0)) = 100
          \<and> sum2enf (normalsAt [0, 2, 3] [[1, 0, 0, 0], [0, 1, 0, 0], [0, 0, 1, 0], [0, 0, 0, 1]] [3, 0, 4, - 20] 1 ?d (Suc 0)) = 100"
    using sweep_error_sums [of "[0, 2, 3]" "[[1, 0, 0, 0], [0, 1, 0, 0], [0, 0, 1, 0], [0, 0, 0, 1]]" "[3, 0, 4, - 20]" 1 ?d] k
    by (simp add: e2 Let_def normalsAt_def uncondAt_def sweepStart_def doUpdate_def
        doRowSum_def elt_def square_def)
  from e1 e2 n1 n2 show ?thesis by simp
qed

subsection \<open>The loop\<close>




lemma iteration_sor:
  "sor (iteration phase participating A rhs r) =
     (if \<not> increasing r
         \<and> rateAboveOne
             (sqrt (snd (snd (sweep participating A rhs (sor r) (data r)))
                    / real (length participating)))
             (normRMSenf r)
         \<and> sor r > 1 / 10
      then max (8 / 10 * sor r) (1 / 10) else sor r)"
  by (simp add: iteration_def Let_def split_beta)

lemma iteration_increasing: "increasing (iteration phase participating A rhs r) = increasing r"
  by (simp add: iteration_def Let_def split_beta)

lemma iteration_data:
  "data (iteration phase participating A rhs r) = fst (sweep participating A rhs (sor r) (data r))"
  by (simp add: iteration_def Let_def split_beta)



lemma nextPass_data:
  "data (nextPass phase participating A rhs r) = data (iteration phase participating A rhs r)"
  by (simp add: nextPass_def Let_def)

lemma nextPass_sor:
  "sor (nextPass phase participating A rhs r) = sor (iteration phase participating A rhs r)"
  by (simp add: nextPass_def Let_def)

lemma nextPass_increasing:
  "increasing (nextPass phase participating A rhs r) = increasing r"
  by (simp add: nextPass_def Let_def iteration_increasing)




lemma pgsLoop_stop:
  "\<not> its r \<le> m_maxIters (solver r) \<Longrightarrow> pgsLoop phase participating A rhs r = r"
  by (subst pgsLoop.simps) simp

lemma pgsLoop_break:
  "its r \<le> m_maxIters (solver r) \<Longrightarrow> converged (iteration phase participating A rhs r) \<Longrightarrow>
   pgsLoop phase participating A rhs r = iteration phase participating A rhs r"
  by (subst pgsLoop.simps) (simp add: Let_def)







lemma atTest_data:
  "data (atTest phase participating A rhs k r)
     = data ((nextPass phase participating A rhs ^^ Suc k) r)"
  by (simp add: atTest_def nextPass_data)



lemma solveStart_facts:
  "its (solveStart S phase d) = 1"
  "m_maxIters (solver (solveStart S phase d)) = m_maxIters S"
  "m_convergenceTol (solver (solveStart S phase d)) = m_convergenceTol S"
  "m_nFail (solver (solveStart S phase d)) = m_nFail S"
  "m_nIters (solver (solveStart S phase d)) = m_nIters S"
  "data (solveStart S phase d) = d"
  "sor (solveStart S phase d) = m_SOR S"
  "\<not> converged (solveStart S phase d)"
  "\<not> increasing (solveStart S phase d)"
  by (simp_all add: solveStart_def initialRun_def)




subsection \<open>Convergence and failure\<close>


text \<open>The definitions a concrete run is evaluated with.\<close>

lemmas eval_defs = atTest_def nextPass_def iteration_def sweep_def uncondStep_def
  doRowSums_def doUpdates_def elt_def square_def solveStart_def initialRun_def
  rateAboveOne_def Let_def


subsection \<open>The relaxation factor\<close>

lemma iteration_sor_le: "sor (iteration phase participating A rhs r) \<le> sor r"
  by (simp add: iteration_sor)

lemma iteration_sor_floor:
  "min (sor r) (1 / 10) \<le> sor (iteration phase participating A rhs r)"
  by (simp add: iteration_sor)

lemma nextPass_pow_sor:
  "min (sor r) (1 / 10) \<le> sor ((nextPass phase participating A rhs ^^ k) r)
   \<and> sor ((nextPass phase participating A rhs ^^ k) r) \<le> sor r"
proof (induction k)
  case 0
  then show ?case by simp
next
  case (Suc k)
  let ?r = "(nextPass phase participating A rhs ^^ k) r"
  have "sor (iteration phase participating A rhs ?r) \<le> sor ?r"
    by (rule iteration_sor_le)
  moreover have "min (sor ?r) (1 / 10) \<le> sor (iteration phase participating A rhs ?r)"
    by (rule iteration_sor_floor)
  moreover have "sor ((nextPass phase participating A rhs ^^ Suc k) r)
                   = sor (iteration phase participating A rhs ?r)"
    by (simp add: nextPass_sor)
  ultimately show ?case
    using Suc.IH by linarith
qed

lemma nextPass_pow_increasing:
  "increasing ((nextPass phase participating A rhs ^^ k) r) = increasing r"
  by (induction k) (simp_all add: nextPass_increasing)

text \<open>
  Claim C8, as amended.  Throughout one call of \<open>solve\<close> the relaxation factor
  never increases from one sweep to the next and stays between
  \<open>min m_SOR 0.1\<close> and \<open>m_SOR\<close>: when the configured factor \<open>m_SOR\<close> is at least
  0.1 it never drops below the floor 0.1, and when \<open>m_SOR\<close> is at most 0.1 it
  stays at \<open>m_SOR\<close>.  In one pass of the loop it becomes \<open>max (0.8 * sor) 0.1\<close>
  when the relax-upward flag is not set, the ratio of the enforced RMS error to
  the previous one exceeds 1 and \<open>sor\<close> exceeds 0.1, and it is left as it is
  otherwise; the relax-upward flag is never set.
\<close>

theorem relaxation_factor_never_increases:
  "sor ((nextPass phase participating A rhs ^^ Suc k) (solveStart S phase d))
     \<le> sor ((nextPass phase participating A rhs ^^ k) (solveStart S phase d))
   \<and> min (m_SOR S) (1 / 10) \<le> sor ((nextPass phase participating A rhs ^^ k) (solveStart S phase d))
   \<and> sor ((nextPass phase participating A rhs ^^ k) (solveStart S phase d)) \<le> m_SOR S
   \<and> (1 / 10 \<le> m_SOR S \<longrightarrow>
        1 / 10 \<le> sor ((nextPass phase participating A rhs ^^ k) (solveStart S phase d)))
   \<and> (m_SOR S \<le> 1 / 10 \<longrightarrow>
        sor ((nextPass phase participating A rhs ^^ k) (solveStart S phase d)) = m_SOR S)
   \<and> \<not> increasing ((nextPass phase participating A rhs ^^ k) (solveStart S phase d))
   \<and> sor (iteration phase participating A rhs r) =
       (if \<not> increasing r
           \<and> rateAboveOne
               (sqrt (snd (snd (sweep participating A rhs (sor r) (data r)))
                      / real (length participating)))
               (normRMSenf r)
           \<and> 1 / 10 < sor r
        then max (8 / 10 * sor r) (1 / 10) else sor r)
   \<and> increasing (iteration phase participating A rhs r) = increasing r"
proof -
  let ?R = "(nextPass phase participating A rhs ^^ k) (solveStart S phase d)"
  have "sor ((nextPass phase participating A rhs ^^ Suc k) (solveStart S phase d))
          = sor (iteration phase participating A rhs ?R)"
    by (simp add: nextPass_sor)
  then have "sor ((nextPass phase participating A rhs ^^ Suc k) (solveStart S phase d)) \<le> sor ?R"
    by (simp only: iteration_sor_le)
  moreover have bounds: "min (m_SOR S) (1 / 10) \<le> sor ?R \<and> sor ?R \<le> m_SOR S"
    using nextPass_pow_sor [where r = "solveStart S phase d" and phase = phase
        and participating = participating and A = A and rhs = rhs and k = k]
    by (simp add: solveStart_facts)
  moreover have "1 / 10 \<le> m_SOR S \<longrightarrow> 1 / 10 \<le> sor ?R"
    using bounds by (auto simp: min_def split: if_splits)
  moreover have "m_SOR S \<le> 1 / 10 \<longrightarrow> sor ?R = m_SOR S"
    using bounds by (auto simp: min_def split: if_splits)
  moreover have "\<not> increasing ?R"
    by (simp add: nextPass_pow_increasing solveStart_facts)
  ultimately show ?thesis
    using iteration_sor [of phase participating A rhs r]
      iteration_increasing [of phase participating A rhs r]
    by blast
qed

theorem relaxation_factor_never_increases_witness:
  "sor ((nextPass 0 [0] [[1]] [1] ^^ Suc (Suc 0))
         (solveStart \<lparr>m_maxIters = 5, m_convergenceTol = 1 / 10, m_SOR = 3,
             m_nSolves = (\<lambda>_. 0), m_nIters = (\<lambda>_. 0), m_nFail = (\<lambda>_. 0)\<rparr> 0
           \<lparr>d_pi = [0], unconditional = [\<lparr>m_mults = [0]\<rparr>], uniContact = [], uniSpeed = [],
             boundedCons = [], consLtdFriction = [], stateLtdFriction = []\<rparr>))
     \<le> sor ((nextPass 0 [0] [[1]] [1] ^^ Suc 0)
         (solveStart \<lparr>m_maxIters = 5, m_convergenceTol = 1 / 10, m_SOR = 3,
             m_nSolves = (\<lambda>_. 0), m_nIters = (\<lambda>_. 0), m_nFail = (\<lambda>_. 0)\<rparr> 0
           \<lparr>d_pi = [0], unconditional = [\<lparr>m_mults = [0]\<rparr>], uniContact = [], uniSpeed = [],
             boundedCons = [], consLtdFriction = [], stateLtdFriction = []\<rparr>))
   \<and> sor ((nextPass 0 [0] [[1]] [1] ^^ Suc 0)
         (solveStart \<lparr>m_maxIters = 5, m_convergenceTol = 1 / 10, m_SOR = 3,
             m_nSolves = (\<lambda>_. 0), m_nIters = (\<lambda>_. 0), m_nFail = (\<lambda>_. 0)\<rparr> 0
           \<lparr>d_pi = [0], unconditional = [\<lparr>m_mults = [0]\<rparr>], uniContact = [], uniSpeed = [],
             boundedCons = [], consLtdFriction = [], stateLtdFriction = []\<rparr>)) = 3
   \<and> sor ((nextPass 0 [0] [[1]] [1] ^^ Suc (Suc 0))
         (solveStart \<lparr>m_maxIters = 5, m_convergenceTol = 1 / 10, m_SOR = 3,
             m_nSolves = (\<lambda>_. 0), m_nIters = (\<lambda>_. 0), m_nFail = (\<lambda>_. 0)\<rparr> 0
           \<lparr>d_pi = [0], unconditional = [\<lparr>m_mults = [0]\<rparr>], uniContact = [], uniSpeed = [],
             boundedCons = [], consLtdFriction = [], stateLtdFriction = []\<rparr>)) = 12 / 5"
proof -
  let ?start = "solveStart \<lparr>m_maxIters = 5, m_convergenceTol = 1 / 10, m_SOR = 3,
             m_nSolves = (\<lambda>_. 0), m_nIters = (\<lambda>_. 0), m_nFail = (\<lambda>_. 0)\<rparr> 0
           \<lparr>d_pi = [0], unconditional = [\<lparr>m_mults = [0]\<rparr>], uniContact = [], uniSpeed = [],
             boundedCons = [], consLtdFriction = [], stateLtdFriction = []\<rparr>"
  have one: "sor ((nextPass 0 [0] [[1]] [1] ^^ Suc 0) ?start) = 3"
    by (simp add: eval_defs)
  have two: "sor ((nextPass 0 [0] [[1]] [1] ^^ Suc (Suc 0)) ?start) = 12 / 5"
    by (simp add: eval_defs)
  from relaxation_factor_never_increases [where phase = 0 and participating = "[0]"
      and A = "[[1]]" and rhs = "[1]" and k = "Suc 0"]
  have "sor ((nextPass 0 [0] [[1]] [1] ^^ Suc (Suc 0)) ?start)
          \<le> sor ((nextPass 0 [0] [[1]] [1] ^^ Suc 0) ?start)"
    by blast
  then show ?thesis
    using one two by blast
qed

text \<open>A call configured with the factor 1/20 runs its sweeps with the factor
  1/20, below 0.1.\<close>

theorem relaxation_factor_below_floor_counterexample:
  "sor (solveStart \<lparr>m_maxIters = 5, m_convergenceTol = 1 / 10, m_SOR = 1 / 20,
           m_nSolves = (\<lambda>_. 0), m_nIters = (\<lambda>_. 0), m_nFail = (\<lambda>_. 0)\<rparr> 0
         \<lparr>d_pi = [0], unconditional = [\<lparr>m_mults = [0]\<rparr>], uniContact = [], uniSpeed = [],
           boundedCons = [], consLtdFriction = [], stateLtdFriction = []\<rparr>) = 1 / 20
   \<and> sor ((nextPass 0 [0] [[1]] [1] ^^ Suc (Suc 0))
         (solveStart \<lparr>m_maxIters = 5, m_convergenceTol = 1 / 10, m_SOR = 1 / 20,
             m_nSolves = (\<lambda>_. 0), m_nIters = (\<lambda>_. 0), m_nFail = (\<lambda>_. 0)\<rparr> 0
           \<lparr>d_pi = [0], unconditional = [\<lparr>m_mults = [0]\<rparr>], uniContact = [], uniSpeed = [],
             boundedCons = [], consLtdFriction = [], stateLtdFriction = []\<rparr>)) = 1 / 20
   \<and> (1 / 20 :: real) < 1 / 10"
  by (simp add: eval_defs)

subsection \<open>Which multipliers a loop body writes\<close>

lemma doUpdate_length: "length (snd (doUpdate row A rhs w rowSum piv)) = length piv"
  by (simp add: doUpdate_def Let_def)

lemma doUpdate_other:
  "j \<noteq> row \<Longrightarrow> snd (doUpdate row A rhs w rowSum piv) ! j = piv ! j"
  by (simp add: doUpdate_def Let_def)

lemma foldl_snd_invariant:
  assumes "\<And>e p k. k \<in> set ks \<Longrightarrow> Q p \<Longrightarrow> Q (snd (f (e, p) k))" and "Q (snd a)"
  shows "Q (snd (foldl f a ks))"
  using assms
proof (induction ks arbitrary: a)
  case Nil
  then show ?case by simp
next
  case (Cons k ks)
  have "Q (snd (f (fst a, snd a) k))"
    using Cons.prems(2) by (intro Cons.prems(1)) simp_all
  then have "Q (snd (foldl f (f a k) ks))"
    by (intro Cons.IH Cons.prems(1)) simp_all
  then show ?case by simp
qed

lemma doUpdates_length: "length (snd (doUpdates rows A rhs w rowSums piv)) = length piv"
  unfolding doUpdates_def
  by (rule foldl_snd_invariant [where Q = "\<lambda>p. length p = length piv"])
     (simp_all add: Let_def)

lemma doUpdates_other:
  assumes "j \<notin> set rows"
  shows "snd (doUpdates rows A rhs w rowSums piv) ! j = piv ! j"
  unfolding doUpdates_def
proof (rule foldl_snd_invariant [where Q = "\<lambda>p. p ! j = piv ! j"])
  fix e :: real and p :: "real list" and k
  assume k: "k \<in> set [0..<length rows]" and p: "p ! j = piv ! j"
  from k have "rows ! k \<in> set rows" by simp
  with assms have "rows ! k \<noteq> j" by auto
  with p show "snd ((case (e, p) of
              (er2, piv') \<Rightarrow> \<lambda>i.
                let row = rows ! i;
                    Arr = elt A row row;
                    er = rhs ! row - rowSums ! i
                in (er2 + square er,
                    if Arr > 0 then piv'[row := piv' ! row + w * er / Arr] else piv')) k) ! j
          = piv ! j"
    by (simp add: Let_def)
qed simp

lemma boundVector_length: "length (snd (boundVector L IV piv)) = length piv"
  by (simp add: boundVector_def Let_def)

lemma boundVector_other:
  "j \<notin> set IV \<Longrightarrow> snd (boundVector L IV piv) ! j = piv ! j"
  by (simp add: boundVector_def Let_def scaleEntries_outside)

lemma uncondStep_length:
  "length (s_pi (snd (uncondStep participating A rhs w rt s))) = length (s_pi s)"
  by (simp add: uncondStep_def Let_def split_beta doUpdates_length)

lemma normalStep_length:
  "length (s_pi (snd (normalStep participating A rhs w rt s))) = length (s_pi s)"
  by (simp add: normalStep_def Let_def split_beta doUpdate_length)

lemma normalStep_other:
  "j \<noteq> m_Nk rt \<Longrightarrow> s_pi (snd (normalStep participating A rhs w rt s)) ! j = s_pi s ! j"
  by (simp add: normalStep_def Let_def split_beta doUpdate_other)

lemma frictionStep_other:
  "j \<notin> set (m_Fk rt) \<Longrightarrow>
   s_pi (snd (frictionStep participating A rhs w rt s)) ! j = s_pi s ! j"
  by (simp add: frictionStep_def Let_def split_beta doUpdates_other boundVector_other)

lemma forEach_preserves_set:
  assumes "\<And>rt a. rt \<in> set rts \<Longrightarrow> Q a \<Longrightarrow> Q (snd (body rt a))" and "Q a"
  shows "Q (snd (forEach body rts a))"
  using assms
proof (induction rts arbitrary: a)
  case Nil
  then show ?case by simp
next
  case (Cons rt rts)
  have h: "Q (snd (body rt a))" using Cons.prems(2) by (intro Cons.prems(1)) simp_all
  have step: "\<And>rt' a'. rt' \<in> set rts \<Longrightarrow> Q a' \<Longrightarrow> Q (snd (body rt' a'))"
    using Cons.prems(1) by simp
  have "Q (snd (forEach body rts (snd (body rt a))))"
    using step h by (rule Cons.IH)
  then show ?case by (simp add: split_beta Let_def)
qed

lemma uncondAt_length:
  "length (s_pi (uncondAt participating A rhs w d k)) = length (d_pi d)"
  unfolding uncondAt_def
  by (rule forEach_preserves [where P = "\<lambda>s. length (s_pi s) = length (d_pi d)"])
     (simp_all add: uncondStep_length sweepStart_def)

lemma normalsAt_length:
  "length (s_pi (normalsAt participating A rhs w d k)) = length (d_pi d)"
  unfolding normalsAt_def
  by (rule forEach_preserves [where P = "\<lambda>s. length (s_pi s) = length (d_pi d)"])
     (simp_all add: normalStep_length uncondAt_length)


subsection \<open>The friction of a unilateral contact\<close>

lemma contactsAfterNormals_fields:
  assumes "k < length (uniContact d)"
  shows "m_type (contactsAfterNormals participating A rhs w d ! k) = m_type (uniContact d ! k)"
    and "m_Fk (contactsAfterNormals participating A rhs w d ! k) = m_Fk (uniContact d ! k)"
    and "m_Nk (contactsAfterNormals participating A rhs w d ! k) = m_Nk (uniContact d ! k)"
    and "m_effMu (contactsAfterNormals participating A rhs w d ! k) = m_effMu (uniContact d ! k)"
    and "m_knownPi (contactsAfterNormals participating A rhs w d ! k) = m_knownPi (uniContact d ! k)"
    and "m_frictionCond (contactsAfterNormals participating A rhs w d ! k)
           = m_frictionCond (uniContact d ! k)"
    and "hasFriction (contactsAfterNormals participating A rhs w d ! k)
           = hasFriction (uniContact d ! k)"
  by (simp_all add: contactsAfterNormals_nth [OF assms] normalStep_fields)

lemma normal_written:
  assumes "k < length (uniContact d)" and "m_type (uniContact d ! k) = Participate"
    and "m_Nk (uniContact d ! k) < length (d_pi d)"
  shows "s_pi (normalsAt participating A rhs w d (Suc k)) ! m_Nk (uniContact d ! k)
           = snd (boundUnilateral (m_sign (uniContact d ! k))
                    (snd (doUpdate (m_Nk (uniContact d ! k)) A rhs w
                            (doRowSum participating (m_Nk (uniContact d ! k)) A
                               (s_pi (normalsAt participating A rhs w d k)))
                            (s_pi (normalsAt participating A rhs w d k)))
                     ! m_Nk (uniContact d ! k)))"
  using assms(2,3)
  by (simp add: normalsAt_Suc [OF assms(1)] normalStep_def Let_def split_beta
      doUpdate_length normalsAt_length)

lemma normal_kept_by_later_normals:
  assumes "Suc k \<le> m" and "m \<le> length (uniContact d)"
    and "\<forall>j<length (uniContact d). j \<noteq> k \<longrightarrow> m_Nk (uniContact d ! j) \<noteq> i"
  shows "s_pi (normalsAt participating A rhs w d m) ! i
           = s_pi (normalsAt participating A rhs w d (Suc k)) ! i"
  using assms(1,2)
proof (induction m rule: dec_induct)
  case base
  then show ?case by simp
next
  case (step n)
  from step.hyps step.prems have n: "n < length (uniContact d)" "n \<noteq> k" by simp_all
  with assms(3) have "i \<noteq> m_Nk (uniContact d ! n)" by auto
  then have "s_pi (normalsAt participating A rhs w d (Suc n)) ! i
               = s_pi (normalsAt participating A rhs w d n) ! i"
    by (simp add: normalsAt_Suc [OF n(1)] normalStep_other)
  with step.IH n(1) show ?case by simp
qed

lemma normal_kept_by_friction:
  assumes "m \<le> length (uniContact d)"
    and "\<forall>j<length (uniContact d). i \<notin> set (m_Fk (uniContact d ! j))"
  shows "s_pi (frictionAt participating A rhs w d m) ! i
           = s_pi (normalsAt participating A rhs w d (length (uniContact d))) ! i"
  using assms(1)
proof (induction m)
  case 0
  then show ?case by (simp add: frictionAt_0)
next
  case (Suc n)
  then have n: "n < length (uniContact d)" by simp
  with assms(2) have "i \<notin> set (m_Fk (contactsAfterNormals participating A rhs w d ! n))"
    by (simp add: contactsAfterNormals_fields)
  then have "s_pi (frictionAt participating A rhs w d (Suc n)) ! i
               = s_pi (frictionAt participating A rhs w d n) ! i"
    by (simp add: frictionAt_Suc [OF n] frictionStep_other)
  with Suc.IH n show ?case by simp
qed

lemma normal_read_by_friction:
  assumes k: "k < length (uniContact d)" and "m_type (uniContact d ! k) = Participate"
    and "m_Nk (uniContact d ! k) < length (d_pi d)"
    and dn: "\<forall>j<length (uniContact d). j \<noteq> k \<longrightarrow>
               m_Nk (uniContact d ! j) \<noteq> m_Nk (uniContact d ! k)"
    and nf: "\<forall>j<length (uniContact d). m_Nk (uniContact d ! k) \<notin> set (m_Fk (uniContact d ! j))"
  shows "snd (doUpdates (m_Fk (uniContact d ! k)) A rhs w
                (doRowSums participating (m_Fk (uniContact d ! k)) A
                   (s_pi (frictionAt participating A rhs w d k)))
                (s_pi (frictionAt participating A rhs w d k)))
           ! m_Nk (uniContact d ! k)
         = snd (boundUnilateral (m_sign (uniContact d ! k))
                    (snd (doUpdate (m_Nk (uniContact d ! k)) A rhs w
                            (doRowSum participating (m_Nk (uniContact d ! k)) A
                               (s_pi (normalsAt participating A rhs w d k)))
                            (s_pi (normalsAt participating A rhs w d k)))
                     ! m_Nk (uniContact d ! k)))"
proof -
  let ?i = "m_Nk (uniContact d ! k)"
  from nf k have "?i \<notin> set (m_Fk (uniContact d ! k))" by simp
  then have "snd (doUpdates (m_Fk (uniContact d ! k)) A rhs w
                (doRowSums participating (m_Fk (uniContact d ! k)) A
                   (s_pi (frictionAt participating A rhs w d k)))
                (s_pi (frictionAt participating A rhs w d k))) ! ?i
             = s_pi (frictionAt participating A rhs w d k) ! ?i"
    by (rule doUpdates_other)
  also have "\<dots> = s_pi (normalsAt participating A rhs w d (length (uniContact d))) ! ?i"
    using k nf by (intro normal_kept_by_friction) simp_all
  also have "\<dots> = s_pi (normalsAt participating A rhs w d (Suc k)) ! ?i"
    using k dn by (intro normal_kept_by_later_normals) simp_all
  also have "\<dots> = snd (boundUnilateral (m_sign (uniContact d ! k))
                    (snd (doUpdate ?i A rhs w
                            (doRowSum participating ?i A
                               (s_pi (normalsAt participating A rhs w d k)))
                            (s_pi (normalsAt participating A rhs w d k))) ! ?i))"
    using assms(1-3) by (rule normal_written)
  finally show ?thesis .
qed


lemma frictionStep_do:
  assumes "hasFriction rt" and "m_type rt \<noteq> Observe"
  shows "frictionStep participating A rhs w rt s =
     (rt\<lparr>m_frictionCond :=
          fst (boundVector
                 (m_effMu rt *
                  \<bar>if m_type rt = Known then m_knownPi rt
                   else snd (doUpdates (m_Fk rt) A rhs w
                               (doRowSums participating (m_Fk rt) A (s_pi s)) (s_pi s))
                        ! m_Nk rt\<bar>)
                 (m_Fk rt)
                 (snd (doUpdates (m_Fk rt) A rhs w
                         (doRowSums participating (m_Fk rt) A (s_pi s)) (s_pi s))))\<rparr>,
      \<lparr>s_pi = snd (boundVector
                 (m_effMu rt *
                  \<bar>if m_type rt = Known then m_knownPi rt
                   else snd (doUpdates (m_Fk rt) A rhs w
                               (doRowSums participating (m_Fk rt) A (s_pi s)) (s_pi s))
                        ! m_Nk rt\<bar>)
                 (m_Fk rt)
                 (snd (doUpdates (m_Fk rt) A rhs w
                         (doRowSums participating (m_Fk rt) A (s_pi s)) (s_pi s)))),
        sum2all = sum2all s
          + fst (doUpdates (m_Fk rt) A rhs w
                   (doRowSums participating (m_Fk rt) A (s_pi s)) (s_pi s)),
        sum2enf =
          (if fst (boundVector
                 (m_effMu rt *
                  \<bar>if m_type rt = Known then m_knownPi rt
                   else snd (doUpdates (m_Fk rt) A rhs w
                               (doRowSums participating (m_Fk rt) A (s_pi s)) (s_pi s))
                        ! m_Nk rt\<bar>)
                 (m_Fk rt)
                 (snd (doUpdates (m_Fk rt) A rhs w
                         (doRowSums participating (m_Fk rt) A (s_pi s)) (s_pi s)))) = Rolling
           then sum2enf s
                + fst (doUpdates (m_Fk rt) A rhs w
                         (doRowSums participating (m_Fk rt) A (s_pi s)) (s_pi s))
           else sum2enf s)\<rparr>)"
  using assms by (simp add: frictionStep_def Let_def split_beta)

text \<open>
  Claim C9, as amended.  In every sweep the loop over the contact frictions
  starts from the state in which the loop over the contact normals has ended,
  having run over all contacts, and the loop over the bounded scalars starts
  where it ends.  When it reaches contact \<open>k\<close>: if the contact has friction and
  its mode is not "observe", its friction multipliers are updated and then
  projected by the vector-norm cap \<open>mu * |N|\<close>, where \<open>N\<close> is the known value when
  the mode is "known" and the current \<open>pi\<close> entry of the normal otherwise; the
  status of the projection is the friction status the sweep records for the
  contact, the squared error is added to \<open>sum2all\<close>, and it is added to \<open>sum2enf\<close>
  if and only if that status is "rolling".  A contact in mode "observe", or
  without friction, is passed over: its friction status, the multipliers and the
  sums stay as they are.  For a participating contact whose normal index is
  inside the vector, is no other contact's normal index and is no friction
  index, the entry read is the value the normals loop of this sweep stored
  for it.
\<close>

theorem sweep_friction_contract:
  assumes "k < length (uniContact d)"
  shows
  "frictionAt participating A rhs w d 0
     = normalsAt participating A rhs w d (length (uniContact d))
   \<and> (\<forall>j<length (uniContact d).
         normalsAt participating A rhs w d (Suc j)
           = snd (normalStep participating A rhs w (uniContact d ! j)
                    (normalsAt participating A rhs w d j)))
   \<and> boundedAt participating A rhs w d 0
       = frictionAt participating A rhs w d (length (uniContact d))
   \<and> (let rt = uniContact d ! k;
           s = frictionAt participating A rhs w d k;
           s' = frictionAt participating A rhs w d (Suc k);
           upd = doUpdates (m_Fk rt) A rhs w
                   (doRowSums participating (m_Fk rt) A (s_pi s)) (s_pi s);
           N = (if m_type rt = Known then m_knownPi rt else snd upd ! m_Nk rt);
           prj = boundVector (m_effMu rt * \<bar>N\<bar>) (m_Fk rt) (snd upd);
           rt' = uniContact (fst (sweep participating A rhs w d)) ! k
       in (if hasFriction rt \<and> m_type rt \<noteq> Observe
           then m_frictionCond rt' = fst prj
              \<and> s_pi s' = snd prj
              \<and> sum2all s' = sum2all s + fst upd
              \<and> sum2enf s' =
                  (if m_frictionCond rt' = Rolling then sum2enf s + fst upd else sum2enf s)
           else m_frictionCond rt' = m_frictionCond rt \<and> s' = s)
        \<and> (m_type rt = Participate \<and> m_Nk rt < length (d_pi d)
            \<and> (\<forall>j<length (uniContact d). j \<noteq> k \<longrightarrow> m_Nk (uniContact d ! j) \<noteq> m_Nk rt)
            \<and> (\<forall>j<length (uniContact d). m_Nk rt \<notin> set (m_Fk (uniContact d ! j)))
           \<longrightarrow> snd upd ! m_Nk rt
                 = snd (boundUnilateral (m_sign rt)
                          (snd (doUpdate (m_Nk rt) A rhs w
                                  (doRowSum participating (m_Nk rt) A
                                     (s_pi (normalsAt participating A rhs w d k)))
                                  (s_pi (normalsAt participating A rhs w d k)))
                           ! m_Nk rt))))"
proof (intro conjI allI impI)
  show "frictionAt participating A rhs w d 0
          = normalsAt participating A rhs w d (length (uniContact d))"
    by (rule frictionAt_0)
  show "boundedAt participating A rhs w d 0
          = frictionAt participating A rhs w d (length (uniContact d))"
    by (rule boundedAt_0)
  show "normalsAt participating A rhs w d (Suc j)
          = snd (normalStep participating A rhs w (uniContact d ! j)
                   (normalsAt participating A rhs w d j))"
    if "j < length (uniContact d)" for j
    using that by (rule normalsAt_Suc)
  have step: "frictionStep participating A rhs w
                (contactsAfterNormals participating A rhs w d ! k)
                (frictionAt participating A rhs w d k)
              = (uniContact (fst (sweep participating A rhs w d)) ! k,
                 frictionAt participating A rhs w d (Suc k))"
    by (simp add: frictionAt_Suc [OF assms] sweep_uniContact_nth [OF assms])
  note f = contactsAfterNormals_fields [OF assms, of participating A rhs w]
  show "let rt = uniContact d ! k;
           s = frictionAt participating A rhs w d k;
           s' = frictionAt participating A rhs w d (Suc k);
           upd = doUpdates (m_Fk rt) A rhs w
                   (doRowSums participating (m_Fk rt) A (s_pi s)) (s_pi s);
           N = (if m_type rt = Known then m_knownPi rt else snd upd ! m_Nk rt);
           prj = boundVector (m_effMu rt * \<bar>N\<bar>) (m_Fk rt) (snd upd);
           rt' = uniContact (fst (sweep participating A rhs w d)) ! k
       in (if hasFriction rt \<and> m_type rt \<noteq> Observe
           then m_frictionCond rt' = fst prj
              \<and> s_pi s' = snd prj
              \<and> sum2all s' = sum2all s + fst upd
              \<and> sum2enf s' =
                  (if m_frictionCond rt' = Rolling then sum2enf s + fst upd else sum2enf s)
           else m_frictionCond rt' = m_frictionCond rt \<and> s' = s)
        \<and> (m_type rt = Participate \<and> m_Nk rt < length (d_pi d)
            \<and> (\<forall>j<length (uniContact d). j \<noteq> k \<longrightarrow> m_Nk (uniContact d ! j) \<noteq> m_Nk rt)
            \<and> (\<forall>j<length (uniContact d). m_Nk rt \<notin> set (m_Fk (uniContact d ! j)))
           \<longrightarrow> snd upd ! m_Nk rt
                 = snd (boundUnilateral (m_sign rt)
                          (snd (doUpdate (m_Nk rt) A rhs w
                                  (doRowSum participating (m_Nk rt) A
                                     (s_pi (normalsAt participating A rhs w d k)))
                                  (s_pi (normalsAt participating A rhs w d k)))
                           ! m_Nk rt)))"
    unfolding Let_def
  proof (intro conjI impI)
    show "if hasFriction (uniContact d ! k) \<and> m_type (uniContact d ! k) \<noteq> Observe
          then m_frictionCond (uniContact (fst (sweep participating A rhs w d)) ! k)
                 = fst (boundVector
                     (m_effMu (uniContact d ! k) *
                      \<bar>if m_type (uniContact d ! k) = Known then m_knownPi (uniContact d ! k)
                       else snd (doUpdates (m_Fk (uniContact d ! k)) A rhs w
                                   (doRowSums participating (m_Fk (uniContact d ! k)) A
                                      (s_pi (frictionAt participating A rhs w d k)))
                                   (s_pi (frictionAt participating A rhs w d k)))
                            ! m_Nk (uniContact d ! k)\<bar>)
                     (m_Fk (uniContact d ! k))
                     (snd (doUpdates (m_Fk (uniContact d ! k)) A rhs w
                             (doRowSums participating (m_Fk (uniContact d ! k)) A
                                (s_pi (frictionAt participating A rhs w d k)))
                             (s_pi (frictionAt participating A rhs w d k)))))
             \<and> s_pi (frictionAt participating A rhs w d (Suc k))
                 = snd (boundVector
                     (m_effMu (uniContact d ! k) *
                      \<bar>if m_type (uniContact d ! k) = Known then m_knownPi (uniContact d ! k)
                       else snd (doUpdates (m_Fk (uniContact d ! k)) A rhs w
                                   (doRowSums participating (m_Fk (uniContact d ! k)) A
                                      (s_pi (frictionAt participating A rhs w d k)))
                                   (s_pi (frictionAt participating A rhs w d k)))
                            ! m_Nk (uniContact d ! k)\<bar>)
                     (m_Fk (uniContact d ! k))
                     (snd (doUpdates (m_Fk (uniContact d ! k)) A rhs w
                             (doRowSums participating (m_Fk (uniContact d ! k)) A
                                (s_pi (frictionAt participating A rhs w d k)))
                             (s_pi (frictionAt participating A rhs w d k)))))
             \<and> sum2all (frictionAt participating A rhs w d (Suc k))
                 = sum2all (frictionAt participating A rhs w d k)
                   + fst (doUpdates (m_Fk (uniContact d ! k)) A rhs w
                            (doRowSums participating (m_Fk (uniContact d ! k)) A
                               (s_pi (frictionAt participating A rhs w d k)))
                            (s_pi (frictionAt participating A rhs w d k)))
             \<and> sum2enf (frictionAt participating A rhs w d (Suc k))
                 = (if m_frictionCond (uniContact (fst (sweep participating A rhs w d)) ! k) = Rolling
                    then sum2enf (frictionAt participating A rhs w d k)
                         + fst (doUpdates (m_Fk (uniContact d ! k)) A rhs w
                                  (doRowSums participating (m_Fk (uniContact d ! k)) A
                                     (s_pi (frictionAt participating A rhs w d k)))
                                  (s_pi (frictionAt participating A rhs w d k)))
                    else sum2enf (frictionAt participating A rhs w d k))
          else m_frictionCond (uniContact (fst (sweep participating A rhs w d)) ! k)
                 = m_frictionCond (uniContact d ! k)
             \<and> frictionAt participating A rhs w d (Suc k)
                 = frictionAt participating A rhs w d k"
    proof (cases "hasFriction (uniContact d ! k) \<and> m_type (uniContact d ! k) \<noteq> Observe")
      case True
      then have "hasFriction (contactsAfterNormals participating A rhs w d ! k)"
        and "m_type (contactsAfterNormals participating A rhs w d ! k) \<noteq> Observe"
        by (simp_all add: f)
      from frictionStep_do [OF this, of participating A rhs w "frictionAt participating A rhs w d k"]
      have eq: "uniContact (fst (sweep participating A rhs w d)) ! k
            = (contactsAfterNormals participating A rhs w d ! k)
                \<lparr>m_frictionCond :=
                   fst (boundVector
                     (m_effMu (uniContact d ! k) *
                      \<bar>if m_type (uniContact d ! k) = Known then m_knownPi (uniContact d ! k)
                       else snd (doUpdates (m_Fk (uniContact d ! k)) A rhs w
                                   (doRowSums participating (m_Fk (uniContact d ! k)) A
                                      (s_pi (frictionAt participating A rhs w d k)))
                                   (s_pi (frictionAt participating A rhs w d k)))
                            ! m_Nk (uniContact d ! k)\<bar>)
                     (m_Fk (uniContact d ! k))
                     (snd (doUpdates (m_Fk (uniContact d ! k)) A rhs w
                             (doRowSums participating (m_Fk (uniContact d ! k)) A
                                (s_pi (frictionAt participating A rhs w d k)))
                             (s_pi (frictionAt participating A rhs w d k)))))\<rparr>"
        and eq': "frictionAt participating A rhs w d (Suc k)
            = \<lparr>s_pi = snd (boundVector
                     (m_effMu (uniContact d ! k) *
                      \<bar>if m_type (uniContact d ! k) = Known then m_knownPi (uniContact d ! k)
                       else snd (doUpdates (m_Fk (uniContact d ! k)) A rhs w
                                   (doRowSums participating (m_Fk (uniContact d ! k)) A
                                      (s_pi (frictionAt participating A rhs w d k)))
                                   (s_pi (frictionAt participating A rhs w d k)))
                            ! m_Nk (uniContact d ! k)\<bar>)
                     (m_Fk (uniContact d ! k))
                     (snd (doUpdates (m_Fk (uniContact d ! k)) A rhs w
                             (doRowSums participating (m_Fk (uniContact d ! k)) A
                                (s_pi (frictionAt participating A rhs w d k)))
                             (s_pi (frictionAt participating A rhs w d k))))),
                sum2all = sum2all (frictionAt participating A rhs w d k)
                  + fst (doUpdates (m_Fk (uniContact d ! k)) A rhs w
                           (doRowSums participating (m_Fk (uniContact d ! k)) A
                              (s_pi (frictionAt participating A rhs w d k)))
                           (s_pi (frictionAt participating A rhs w d k))),
                sum2enf =
                  (if fst (boundVector
                     (m_effMu (uniContact d ! k) *
                      \<bar>if m_type (uniContact d ! k) = Known then m_knownPi (uniContact d ! k)
                       else snd (doUpdates (m_Fk (uniContact d ! k)) A rhs w
                                   (doRowSums participating (m_Fk (uniContact d ! k)) A
                                      (s_pi (frictionAt participating A rhs w d k)))
                                   (s_pi (frictionAt participating A rhs w d k)))
                            ! m_Nk (uniContact d ! k)\<bar>)
                     (m_Fk (uniContact d ! k))
                     (snd (doUpdates (m_Fk (uniContact d ! k)) A rhs w
                             (doRowSums participating (m_Fk (uniContact d ! k)) A
                                (s_pi (frictionAt participating A rhs w d k)))
                             (s_pi (frictionAt participating A rhs w d k))))) = Rolling
                   then sum2enf (frictionAt participating A rhs w d k)
                        + fst (doUpdates (m_Fk (uniContact d ! k)) A rhs w
                                 (doRowSums participating (m_Fk (uniContact d ! k)) A
                                    (s_pi (frictionAt participating A rhs w d k)))
                                 (s_pi (frictionAt participating A rhs w d k)))
                   else sum2enf (frictionAt participating A rhs w d k))\<rparr>"
        by (simp_all add: step f)
      show ?thesis
        unfolding if_P [OF True] by (subst (1 2) eq, subst (1 2 3) eq') simp
    next
      case False
      then have "m_type (contactsAfterNormals participating A rhs w d ! k) = Observe
                 \<or> \<not> hasFriction (contactsAfterNormals participating A rhs w d ! k)"
        by (auto simp: f)
      from frictionStep_skip [OF this, of participating A rhs w "frictionAt participating A rhs w d k"]
      have eq: "uniContact (fst (sweep participating A rhs w d)) ! k
                  = contactsAfterNormals participating A rhs w d ! k"
        and eq': "frictionAt participating A rhs w d (Suc k) = frictionAt participating A rhs w d k"
        by (simp_all add: step)
      show ?thesis
        unfolding if_not_P [OF False] by (simp add: eq eq' f)
    qed
  next
    assume h: "m_type (uniContact d ! k) = Participate \<and> m_Nk (uniContact d ! k) < length (d_pi d)
       \<and> (\<forall>j<length (uniContact d). j \<noteq> k \<longrightarrow>
              m_Nk (uniContact d ! j) \<noteq> m_Nk (uniContact d ! k))
       \<and> (\<forall>j<length (uniContact d). m_Nk (uniContact d ! k) \<notin> set (m_Fk (uniContact d ! j)))"
    then show "snd (doUpdates (m_Fk (uniContact d ! k)) A rhs w
                (doRowSums participating (m_Fk (uniContact d ! k)) A
                   (s_pi (frictionAt participating A rhs w d k)))
                (s_pi (frictionAt participating A rhs w d k)))
           ! m_Nk (uniContact d ! k)
         = snd (boundUnilateral (m_sign (uniContact d ! k))
                    (snd (doUpdate (m_Nk (uniContact d ! k)) A rhs w
                            (doRowSum participating (m_Nk (uniContact d ! k)) A
                               (s_pi (normalsAt participating A rhs w d k)))
                            (s_pi (normalsAt participating A rhs w d k)))
                     ! m_Nk (uniContact d ! k)))"
      using assms by (intro normal_read_by_friction) simp_all
  qed
qed


theorem sweep_friction_contract_witness:
  "uniContact (fst (sweep [0, 2, 3] [[1, 0, 0, 0], [0, 1, 0, 0], [0, 0, 1, 0], [0, 0, 0, 1]] [3, 0, 4, 20] 1
        \<lparr>d_pi = [0, 7, 0, - 10], unconditional = [],
          uniContact = [\<lparr>m_sign = 1, m_type = Participate, m_effMu = 1 / 2, m_Nk = 3,
                          m_Fk = [0, 2], m_knownPi = 0, m_contactCond = UniActive,
                          m_frictionCond = Rolling\<rparr>],
          uniSpeed = [], boundedCons = [], consLtdFriction = [], stateLtdFriction = []\<rparr>)) ! 0
     = \<lparr>m_sign = 1, m_type = Participate, m_effMu = 1 / 2, m_Nk = 3,
          m_Fk = [0, 2], m_knownPi = 0, m_contactCond = UniOff, m_frictionCond = Sliding\<rparr>
   \<and> frictionAt [0, 2, 3] [[1, 0, 0, 0], [0, 1, 0, 0], [0, 0, 1, 0], [0, 0, 0, 1]] [3, 0, 4, 20] 1
        \<lparr>d_pi = [0, 7, 0, - 10], unconditional = [],
          uniContact = [\<lparr>m_sign = 1, m_type = Participate, m_effMu = 1 / 2, m_Nk = 3,
                          m_Fk = [0, 2], m_knownPi = 0, m_contactCond = UniActive,
                          m_frictionCond = Rolling\<rparr>],
          uniSpeed = [], boundedCons = [], consLtdFriction = [], stateLtdFriction = []\<rparr> (Suc 0)
     = \<lparr>s_pi = [0, 7, 0, 0], sum2all = 925, sum2enf = 0\<rparr>
   \<and> snd (doUpdates [0, 2] [[1, 0, 0, 0], [0, 1, 0, 0], [0, 0, 1, 0], [0, 0, 0, 1]] [3, 0, 4, 20] 1
             (doRowSums [0, 2, 3] [0, 2] [[1, 0, 0, 0], [0, 1, 0, 0], [0, 0, 1, 0], [0, 0, 0, 1]]
                (s_pi (frictionAt [0, 2, 3] [[1, 0, 0, 0], [0, 1, 0, 0], [0, 0, 1, 0], [0, 0, 0, 1]] [3, 0, 4, 20] 1
        \<lparr>d_pi = [0, 7, 0, - 10], unconditional = [],
          uniContact = [\<lparr>m_sign = 1, m_type = Participate, m_effMu = 1 / 2, m_Nk = 3,
                          m_Fk = [0, 2], m_knownPi = 0, m_contactCond = UniActive,
                          m_frictionCond = Rolling\<rparr>],
          uniSpeed = [], boundedCons = [], consLtdFriction = [], stateLtdFriction = []\<rparr> 0)))
             (s_pi (frictionAt [0, 2, 3] [[1, 0, 0, 0], [0, 1, 0, 0], [0, 0, 1, 0], [0, 0, 0, 1]] [3, 0, 4, 20] 1
        \<lparr>d_pi = [0, 7, 0, - 10], unconditional = [],
          uniContact = [\<lparr>m_sign = 1, m_type = Participate, m_effMu = 1 / 2, m_Nk = 3,
                          m_Fk = [0, 2], m_knownPi = 0, m_contactCond = UniActive,
                          m_frictionCond = Rolling\<rparr>],
          uniSpeed = [], boundedCons = [], consLtdFriction = [], stateLtdFriction = []\<rparr> 0))) ! 3 = 0
   \<and> uniContact (fst (sweep [0, 2, 3] [[1, 0, 0, 0], [0, 1, 0, 0], [0, 0, 1, 0], [0, 0, 0, 1]] [3, 0, 4, 20] 1
        \<lparr>d_pi = [0, 7, 0, - 10], unconditional = [],
          uniContact = [\<lparr>m_sign = 1, m_type = Known, m_effMu = 1 / 2, m_Nk = 3,
                          m_Fk = [0, 2], m_knownPi = - 10, m_contactCond = UniActive,
                          m_frictionCond = Sliding\<rparr>],
          uniSpeed = [], boundedCons = [], consLtdFriction = [], stateLtdFriction = []\<rparr>)) ! 0
     = \<lparr>m_sign = 1, m_type = Known, m_effMu = 1 / 2, m_Nk = 3,
          m_Fk = [0, 2], m_knownPi = - 10, m_contactCond = UniActive, m_frictionCond = Rolling\<rparr>
   \<and> frictionAt [0, 2, 3] [[1, 0, 0, 0], [0, 1, 0, 0], [0, 0, 1, 0], [0, 0, 0, 1]] [3, 0, 4, 20] 1
        \<lparr>d_pi = [0, 7, 0, - 10], unconditional = [],
          uniContact = [\<lparr>m_sign = 1, m_type = Known, m_effMu = 1 / 2, m_Nk = 3,
                          m_Fk = [0, 2], m_knownPi = - 10, m_contactCond = UniActive,
                          m_frictionCond = Sliding\<rparr>],
          uniSpeed = [], boundedCons = [], consLtdFriction = [], stateLtdFriction = []\<rparr> (Suc 0)
     = \<lparr>s_pi = [3, 7, 4, - 10], sum2all = 25, sum2enf = 25\<rparr>"
proof -
  let ?dP = "\<lparr>d_pi = [0, 7, 0, - 10], unconditional = [],
          uniContact = [\<lparr>m_sign = 1, m_type = Participate, m_effMu = 1 / 2, m_Nk = 3,
                          m_Fk = [0, 2], m_knownPi = 0, m_contactCond = UniActive,
                          m_frictionCond = Rolling\<rparr>],
          uniSpeed = [], boundedCons = [], consLtdFriction = [], stateLtdFriction = []\<rparr>"
  let ?dK = "\<lparr>d_pi = [0, 7, 0, - 10], unconditional = [],
          uniContact = [\<lparr>m_sign = 1, m_type = Known, m_effMu = 1 / 2, m_Nk = 3,
                          m_Fk = [0, 2], m_knownPi = - 10, m_contactCond = UniActive,
                          m_frictionCond = Sliding\<rparr>],
          uniSpeed = [], boundedCons = [], consLtdFriction = [], stateLtdFriction = []\<rparr>"
  have kP: "0 < length (uniContact ?dP)" and kK: "0 < length (uniContact ?dK)" by simp_all
  have P: "uniContact (fst (sweep [0, 2, 3] [[1, 0, 0, 0], [0, 1, 0, 0], [0, 0, 1, 0], [0, 0, 0, 1]] [3, 0, 4, 20] 1 ?dP)) ! 0
     = \<lparr>m_sign = 1, m_type = Participate, m_effMu = 1 / 2, m_Nk = 3,
          m_Fk = [0, 2], m_knownPi = 0, m_contactCond = UniOff, m_frictionCond = Sliding\<rparr>
   \<and> frictionAt [0, 2, 3] [[1, 0, 0, 0], [0, 1, 0, 0], [0, 0, 1, 0], [0, 0, 0, 1]] [3, 0, 4, 20] 1 ?dP (Suc 0)
     = \<lparr>s_pi = [0, 7, 0, 0], sum2all = 925, sum2enf = 0\<rparr>
   \<and> snd (doUpdates [0, 2] [[1, 0, 0, 0], [0, 1, 0, 0], [0, 0, 1, 0], [0, 0, 0, 1]] [3, 0, 4, 20] 1
             (doRowSums [0, 2, 3] [0, 2] [[1, 0, 0, 0], [0, 1, 0, 0], [0, 0, 1, 0], [0, 0, 0, 1]]
                (s_pi (frictionAt [0, 2, 3] [[1, 0, 0, 0], [0, 1, 0, 0], [0, 0, 1, 0], [0, 0, 0, 1]] [3, 0, 4, 20] 1 ?dP 0)))
             (s_pi (frictionAt [0, 2, 3] [[1, 0, 0, 0], [0, 1, 0, 0], [0, 0, 1, 0], [0, 0, 0, 1]] [3, 0, 4, 20] 1 ?dP 0))) ! 3 = 0"
    using sweep_friction_contract [OF kP, of "[0, 2, 3]" "[[1, 0, 0, 0], [0, 1, 0, 0], [0, 0, 1, 0], [0, 0, 0, 1]]" "[3, 0, 4, 20]" 1]
    by (simp add: frictionAt_def normalsAt_def uncondAt_def contactsAfterNormals_def
        sweepStart_def sweep_eval_defs)
  have K: "uniContact (fst (sweep [0, 2, 3] [[1, 0, 0, 0], [0, 1, 0, 0], [0, 0, 1, 0], [0, 0, 0, 1]] [3, 0, 4, 20] 1 ?dK)) ! 0
     = \<lparr>m_sign = 1, m_type = Known, m_effMu = 1 / 2, m_Nk = 3,
          m_Fk = [0, 2], m_knownPi = - 10, m_contactCond = UniActive, m_frictionCond = Rolling\<rparr>
   \<and> frictionAt [0, 2, 3] [[1, 0, 0, 0], [0, 1, 0, 0], [0, 0, 1, 0], [0, 0, 0, 1]] [3, 0, 4, 20] 1 ?dK (Suc 0)
     = \<lparr>s_pi = [3, 7, 4, - 10], sum2all = 25, sum2enf = 25\<rparr>"
    using sweep_friction_contract [OF kK, of "[0, 2, 3]" "[[1, 0, 0, 0], [0, 1, 0, 0], [0, 0, 1, 0], [0, 0, 0, 1]]" "[3, 0, 4, 20]" 1]
    by (simp add: frictionAt_def normalsAt_def uncondAt_def contactsAfterNormals_def
        sweepStart_def sweep_eval_defs)
  from P K show ?thesis by simp
qed

text \<open>A contact in mode "observe" that has friction is passed over, although
  the update of its friction rows would move them.\<close>

theorem frictionStep_observe_counterexample:
  "hasFriction \<lparr>m_sign = 1, m_type = Observe, m_effMu = 1 / 2, m_Nk = 1, m_Fk = [0, 2],
       m_knownPi = - 10, m_contactCond = UniActive, m_frictionCond = Sliding\<rparr>
   \<and> frictionStep [0, 2] [[1, 0, 0], [0, 1, 0], [0, 0, 1]] [3, 0, 4] 1
        \<lparr>m_sign = 1, m_type = Observe, m_effMu = 1 / 2, m_Nk = 1, m_Fk = [0, 2],
          m_knownPi = - 10, m_contactCond = UniActive, m_frictionCond = Sliding\<rparr>
        \<lparr>s_pi = [0, 0, 0], sum2all = 0, sum2enf = 0\<rparr>
     = (\<lparr>m_sign = 1, m_type = Observe, m_effMu = 1 / 2, m_Nk = 1, m_Fk = [0, 2],
          m_knownPi = - 10, m_contactCond = UniActive, m_frictionCond = Sliding\<rparr>,
        \<lparr>s_pi = [0, 0, 0], sum2all = 0, sum2enf = 0\<rparr>)
   \<and> doUpdates [0, 2] [[1, 0, 0], [0, 1, 0], [0, 0, 1]] [3, 0, 4] 1
        (doRowSums [0, 2] [0, 2] [[1, 0, 0], [0, 1, 0], [0, 0, 1]] [0, 0, 0]) [0, 0, 0]
     = (25, [3, 0, 4])"
  by (simp add: frictionStep_def hasFriction_def doUpdates_def doRowSums_def elt_def
      square_def upt_rec)

subsection \<open>Unilateral speed constraints\<close>

lemma sweep_ignores_uniSpeed:
  "sweep participating A rhs w (d\<lparr>uniSpeed := us\<rparr>)
     = (fst (sweep participating A rhs w d)\<lparr>uniSpeed := us\<rparr>, snd (sweep participating A rhs w d))"
  by (simp add: sweep_def Let_def split_beta)

lemma sweep_uniSpeed: "uniSpeed (fst (sweep participating A rhs w d)) = uniSpeed d"
  by (simp add: sweep_def Let_def split_beta)

lemma nextPass_pow_uniSpeed:
  "uniSpeed (data ((nextPass phase participating A rhs ^^ k) r)) = uniSpeed (data r)"
  by (induction k) (simp_all add: nextPass_data iteration_data sweep_uniSpeed)

lemma pgsLoop_uniSpeed:
  "uniSpeed (data (pgsLoop phase participating A rhs r)) = uniSpeed (data r)"
proof (induction phase participating A rhs r rule: pgsLoop.induct)
  case (1 phase participating A rhs r)
  show ?case
  proof (cases "its r \<le> m_maxIters (solver r)")
    case False
    then show ?thesis by (simp add: pgsLoop_stop)
  next
    case le: True
    show ?thesis
    proof (cases "converged (iteration phase participating A rhs r)")
      case True
      with le show ?thesis
        by (simp add: pgsLoop_break iteration_data sweep_uniSpeed)
    next
      case False
      with le "1.IH" [OF le refl False] show ?thesis
        by (subst pgsLoop.simps) (simp add: Let_def iteration_data sweep_uniSpeed)
    qed
  qed
qed

lemma solve_uniSpeed:
  "uniSpeed (snd (snd (solve S phase participating A D rhs d))) = uniSpeed d"
  by (simp add: solve_def Let_def pgsLoop_uniSpeed initialRun_def)

text \<open>
  Claim C3 does not hold of the source.  The sweep has no loop over the
  unilateral speed constraints: a problem whose only constraint is one of them,
  on a row whose residual is 1, is reported as converged after one sweep with
  both error sums 0, the multiplier not updated and the status of the constraint
  as it was passed.
\<close>

theorem solve_skips_uniSpeed:
  "solve \<lparr>m_maxIters = 5, m_convergenceTol = 1 / 10, m_SOR = 1,
           m_nSolves = (\<lambda>_. 0), m_nIters = (\<lambda>_. 0), m_nFail = (\<lambda>_. 0)\<rparr>
     0 [0] [[1]] [] [1]
     \<lparr>d_pi = [0], unconditional = [], uniContact = [],
       uniSpeed = [\<lparr>m_ix_US = 0, m_sign_US = 1, m_speedCond = UniOff\<rparr>],
       boundedCons = [], consLtdFriction = [], stateLtdFriction = []\<rparr>
   = (True,
      \<lparr>m_maxIters = 5, m_convergenceTol = 1 / 10, m_SOR = 1,
        m_nSolves = (\<lambda>_. 0)(0 := 1), m_nIters = (\<lambda>_. 0)(0 := 1), m_nFail = (\<lambda>_. 0)\<rparr>,
      \<lparr>d_pi = [0], unconditional = [], uniContact = [],
        uniSpeed = [\<lparr>m_ix_US = 0, m_sign_US = 1, m_speedCond = UniOff\<rparr>],
        boundedCons = [], consLtdFriction = [], stateLtdFriction = []\<rparr>)
   \<and> [1] ! 0 - doRowSum [0] 0 [[1]] [0] = 1
   \<and> sweep [0] [[1]] [1] 1
        \<lparr>d_pi = [0], unconditional = [], uniContact = [],
          uniSpeed = [\<lparr>m_ix_US = 0, m_sign_US = 1, m_speedCond = UniOff\<rparr>],
          boundedCons = [], consLtdFriction = [], stateLtdFriction = []\<rparr>
     = (\<lparr>d_pi = [0], unconditional = [], uniContact = [],
          uniSpeed = [\<lparr>m_ix_US = 0, m_sign_US = 1, m_speedCond = UniOff\<rparr>],
          boundedCons = [], consLtdFriction = [], stateLtdFriction = []\<rparr>, 0, 0)"
proof -
  let ?S = "\<lparr>m_maxIters = 5, m_convergenceTol = 1 / 10, m_SOR = 1,
           m_nSolves = (\<lambda>_. 0), m_nIters = (\<lambda>_. 0), m_nFail = (\<lambda>_. 0)\<rparr>"
  let ?d = "\<lparr>d_pi = [0], unconditional = [], uniContact = [],
       uniSpeed = [\<lparr>m_ix_US = 0, m_sign_US = 1, m_speedCond = UniOff\<rparr>],
       boundedCons = [], consLtdFriction = [], stateLtdFriction = []\<rparr>"
  have it: "iteration 0 [0] [[1]] [1] (solveStart ?S 0 ?d)
      = (solveStart ?S 0 ?d)
          \<lparr>solver := ?S\<lparr>m_nSolves := (\<lambda>_. 0)(0 := 1), m_nIters := (\<lambda>_. 0)(0 := 1)\<rparr>,
           prevNormRMSenf := Infinity, normRMSall := Fin 0, normRMSenf := Fin 0,
           converged := True\<rparr>"
    by (simp add: eval_defs)
  have "pgsLoop 0 [0] [[1]] [1] (solveStart ?S 0 ?d) = iteration 0 [0] [[1]] [1] (solveStart ?S 0 ?d)"
    by (rule pgsLoop_break) (simp_all add: it, simp_all add: solveStart_def initialRun_def)
  then have "solve ?S 0 [0] [[1]] [] [1] ?d
      = (True, ?S\<lparr>m_nSolves := (\<lambda>_. 0)(0 := 1), m_nIters := (\<lambda>_. 0)(0 := 1)\<rparr>, ?d)"
    by (simp add: solve_def Let_def solveStart_def [symmetric] it)
       (simp add: solveStart_def initialRun_def)
  moreover have "[1] ! 0 - doRowSum [0] 0 [[1]] [0] = (1::real)"
    by (simp add: doRowSum_def elt_def)
  moreover have "sweep [0] [[1]] [1] 1 ?d = (?d, 0, 0)"
    by (simp add: sweep_def)
  ultimately show ?thesis by simp
qed

end
